theory Spec2Isabelle
  imports Main "HOL-Library.Multiset"
begin

section \<open>Python text rendering\<close>

text \<open>
  The compiler renders integers with Python's \<^verbatim>\<open>str\<close> and f-strings (line numbers in
  diagnostics, integer literals, temporary and label counters, argument counts).
  \<open>str_nat\<close> is the decimal rendering of a natural number, \<open>str_int\<close> that of an
  unbounded Python int.
\<close>

abbreviation sq :: string where
  "sq \<equiv> [CHR 0x27]"

definition digit_char :: "nat \<Rightarrow> char" where
  "digit_char d = ''0123456789'' ! d"

fun str_nat :: "nat \<Rightarrow> string" where
  "str_nat n = (if n < 10 then [digit_char n] else str_nat (n div 10) @ [digit_char (n mod 10)])"

declare str_nat.simps [simp del]

definition str_int :: "int \<Rightarrow> string" where
  "str_int i = (if i < 0 then CHR ''-'' # str_nat (nat (- i)) else str_nat (nat i))"

text \<open>
  A Python float is represented by the text that \<^verbatim>\<open>str\<close> renders for it: the compiler
  never computes with a float, it only stores the value in the tree and prints it.
\<close>

datatype pyfloat = PyFloat (float_str: string)

section \<open>Abstract syntax (parser.py, the node dataclasses)\<close>

text \<open>
  Every node starts with its \<open>line\<close> and \<open>column\<close>. Operators are the strings of the
  source. A \<^verbatim>\<open>FunctionCallStatementNode\<close> holds a \<^verbatim>\<open>FunctionCallNode\<close>; its four
  fields follow the statement's own coordinates.
\<close>

datatype expr =
    BinaryOpNode int int string expr expr
  | UnaryOpNode int int string expr
  | IntegerNode int int int
  | FloatNode int int pyfloat
  | StringNode int int string
  | IdentifierNode int int string
  | FunctionCallNode int int string "expr list"

datatype stmt =
    VarDeclarationNode int int string expr
  | AssignmentNode int int string expr
  | FunctionDefNode int int string "string list" "stmt list"
  | IfStatementNode int int expr "stmt list" "stmt list option"
  | WhileLoopNode int int expr "stmt list"
  | ReturnStatementNode int int expr
  | PrintStatementNode int int expr
  | FunctionCallStatementNode int int int int string "expr list"

datatype program = ProgramNode int int "stmt list"

section \<open>Symbol table (semantic.py)\<close>

text \<open>\<^verbatim>\<open>SymbolTable.declare\<close> is \<open>declare_symbol\<close> here.\<close>

datatype DataType = TREATS | WHISKERS | YARN | VOID | UNKNOWN

fun DataType_name :: "DataType \<Rightarrow> string" where
  "DataType_name TREATS = ''TREATS''"
| "DataType_name WHISKERS = ''WHISKERS''"
| "DataType_name YARN = ''YARN''"
| "DataType_name VOID = ''VOID''"
| "DataType_name UNKNOWN = ''UNKNOWN''"

record Symbol =
  symbol_name :: string
  data_type :: DataType
  scope_level :: nat
  is_function :: bool
  parameters :: "string list option"
  symbol_line :: int
  symbol_column :: int

record SemanticError =
  message :: string
  error_line :: int
  error_column :: int

text \<open>
  \<open>scopes\<close> is the Python list of dictionaries: index 0 is the program scope and the
  innermost scope is the last element. The class keeps \<open>current_scope\<close> equal to
  \<open>length scopes - 1\<close> (\<open>table_ok\<close> below, preserved by every operation), so the
  indexing \<^verbatim>\<open>self.scopes[self.current_scope]\<close> never raises.
\<close>

record SymbolTable =
  scopes :: "(string \<rightharpoonup> Symbol) list"
  current_scope :: nat

definition SymbolTable_init :: SymbolTable where
  "SymbolTable_init = \<lparr>scopes = [Map.empty], current_scope = 0\<rparr>"

definition table_ok :: "SymbolTable \<Rightarrow> bool" where
  "table_ok t = (current_scope t + 1 = length (scopes t))"

definition enter_scope :: "SymbolTable \<Rightarrow> SymbolTable" where
  "enter_scope t = t\<lparr>scopes := scopes t @ [Map.empty], current_scope := current_scope t + 1\<rparr>"

definition exit_scope :: "SymbolTable \<Rightarrow> SymbolTable" where
  "exit_scope t =
     (if current_scope t > 0
      then t\<lparr>scopes := butlast (scopes t), current_scope := current_scope t - 1\<rparr>
      else t)"

definition declare_symbol :: "Symbol \<Rightarrow> SymbolTable \<Rightarrow> SemanticError + SymbolTable" where
  "declare_symbol symbol t =
     (case (scopes t ! current_scope t) (symbol_name symbol) of
        Some existing \<Rightarrow>
          Inl \<lparr>message = ''Variable '' @ sq @ symbol_name symbol
                  @ sq @ '' already declared in current scope at line '' @ str_int (symbol_line existing),
               error_line = symbol_line symbol, error_column = symbol_column symbol\<rparr>
      | None \<Rightarrow>
          Inr (t\<lparr>scopes := (scopes t)[current_scope t :=
                    (scopes t ! current_scope t)(symbol_name symbol \<mapsto> symbol)]\<rparr>))"

text \<open>
  \<open>lookup\<close> scans from \<open>current_scope\<close> down to 0. The model also returns the level
  of the hit, which \<open>set_data_type\<close> needs to write the in-place update
  \<^verbatim>\<open>symbol.data_type = ...\<close> back into the frame that holds the symbol.
\<close>

fun lookup_from :: "(string \<rightharpoonup> Symbol) list \<Rightarrow> nat \<Rightarrow> string \<Rightarrow> (nat \<times> Symbol) option" where
  "lookup_from scs 0 nm = (case (scs ! 0) nm of Some s \<Rightarrow> Some (0, s) | None \<Rightarrow> None)"
| "lookup_from scs (Suc l) nm =
     (case (scs ! Suc l) nm of Some s \<Rightarrow> Some (Suc l, s) | None \<Rightarrow> lookup_from scs l nm)"

definition lookup_level :: "SymbolTable \<Rightarrow> string \<Rightarrow> (nat \<times> Symbol) option" where
  "lookup_level t nm = lookup_from (scopes t) (current_scope t) nm"

definition lookup :: "SymbolTable \<Rightarrow> string \<Rightarrow> Symbol option" where
  "lookup t nm = map_option snd (lookup_level t nm)"

definition set_data_type :: "nat \<Rightarrow> Symbol \<Rightarrow> DataType \<Rightarrow> SymbolTable \<Rightarrow> SymbolTable" where
  "set_data_type lvl symbol ty t =
     t\<lparr>scopes := (scopes t)[lvl := (scopes t ! lvl)(symbol_name symbol \<mapsto> symbol\<lparr>data_type := ty\<rparr>)]\<rparr>"

section \<open>Semantic analyzer (semantic.py)\<close>

record SemanticAnalyzer =
  symbol_table :: SymbolTable
  errors :: "SemanticError list"
  current_function :: "string option"
  in_function :: bool

definition SemanticAnalyzer_init :: SemanticAnalyzer where
  "SemanticAnalyzer_init =
     \<lparr>symbol_table = SymbolTable_init, errors = [], current_function = None, in_function = False\<rparr>"

definition add_error :: "string \<Rightarrow> int \<Rightarrow> int \<Rightarrow> SemanticAnalyzer \<Rightarrow> SemanticAnalyzer" where
  "add_error msg ln col a = a\<lparr>errors := errors a @ [\<lparr>message = msg, error_line = ln, error_column = col\<rparr>]\<rparr>"

definition are_types_compatible :: "DataType \<Rightarrow> DataType \<Rightarrow> bool" where
  "are_types_compatible type1 type2 =
     (if type1 = type2 then True
      else if type1 \<in> set [TREATS, WHISKERS] \<and> type2 \<in> set [TREATS, WHISKERS] then True
      else False)"

definition sa_visit_identifier :: "int \<Rightarrow> int \<Rightarrow> string \<Rightarrow> SemanticAnalyzer \<Rightarrow> DataType \<times> SemanticAnalyzer" where
  "sa_visit_identifier ln col nm a =
     (case lookup (symbol_table a) nm of
        None \<Rightarrow> (UNKNOWN, add_error (''Undeclared variable '' @ sq @ nm @ sq) ln col a)
      | Some symbol \<Rightarrow>
          if is_function symbol
          then (UNKNOWN, add_error (''Cannot use function '' @ sq @ nm @ sq @ '' as a variable'') ln col a)
          else (data_type symbol, a))"

text \<open>
  \<^verbatim>\<open>visit_binary_op\<close> and \<^verbatim>\<open>visit_unary_op\<close> first visit their operands and
  then compute the result type from the operand types. \<open>binary_op_type\<close> and
  \<open>unary_op_type\<close> are these second halves, on the analyzer state left by the
  operand visits; the operand visits are in \<open>sa_visit_expression\<close>.
\<close>

definition binary_op_type ::
    "int \<Rightarrow> int \<Rightarrow> string \<Rightarrow> DataType \<Rightarrow> DataType \<Rightarrow> SemanticAnalyzer \<Rightarrow> DataType \<times> SemanticAnalyzer" where
  "binary_op_type ln col operator left_type right_type a =
     (if operator \<in> set [''+'', ''-'', ''*'', ''/'', ''%''] then
        if operator = ''+'' \<and> (left_type = YARN \<or> right_type = YARN) then (YARN, a)
        else if left_type \<in> set [TREATS, WHISKERS] \<and> right_type \<in> set [TREATS, WHISKERS] then
          (if operator = ''/'' then (WHISKERS, a)
           else if left_type = WHISKERS \<or> right_type = WHISKERS then (WHISKERS, a)
           else (TREATS, a))
        else if left_type \<noteq> UNKNOWN \<and> right_type \<noteq> UNKNOWN then
          (UNKNOWN, add_error (''Type error: cannot apply operator '' @ sq @ operator @ sq @ '' to ''
                      @ DataType_name left_type @ '' and '' @ DataType_name right_type) ln col a)
        else (UNKNOWN, a)
      else if operator \<in> set [''=='', ''!='', ''<'', ''>'', ''<='', ''>=''] then
        if left_type = right_type then (TREATS, a)
        else if left_type \<in> set [TREATS, WHISKERS] \<and> right_type \<in> set [TREATS, WHISKERS] then
          (TREATS, a)
        else if left_type \<noteq> UNKNOWN \<and> right_type \<noteq> UNKNOWN then
          (TREATS, add_error (''Type error: cannot compare '' @ DataType_name left_type
                      @ '' and '' @ DataType_name right_type) ln col a)
        else (TREATS, a)
      else if operator \<in> set [''&&'', ''||''] then (TREATS, a)
      else (UNKNOWN, a))"

definition unary_op_type ::
    "int \<Rightarrow> int \<Rightarrow> string \<Rightarrow> DataType \<Rightarrow> SemanticAnalyzer \<Rightarrow> DataType \<times> SemanticAnalyzer" where
  "unary_op_type ln col operator operand_type a =
     (if operator = ''!'' then (TREATS, a)
      else if operator = ''-'' then
        if operand_type \<in> set [TREATS, WHISKERS] then (operand_type, a)
        else if operand_type \<noteq> UNKNOWN then
          (UNKNOWN, add_error (''Type error: cannot apply unary '' @ sq @ ''-'' @ sq @ '' to ''
                      @ DataType_name operand_type) ln col a)
        else (UNKNOWN, a)
      else (UNKNOWN, a))"

text \<open>
  The head of \<^verbatim>\<open>visit_function_call\<close>: the callee must be a declared function and the
  argument count is compared with the parameter count. The result is the call's type and
  whether the arguments are visited afterwards (they are not after an early return).
\<close>

definition check_callee ::
    "int \<Rightarrow> int \<Rightarrow> string \<Rightarrow> nat \<Rightarrow> SemanticAnalyzer \<Rightarrow> DataType \<times> bool \<times> SemanticAnalyzer" where
  "check_callee ln col nm actual_args a =
     (case lookup (symbol_table a) nm of
        None \<Rightarrow> (UNKNOWN, False, add_error (''Undeclared function '' @ sq @ nm @ sq) ln col a)
      | Some symbol \<Rightarrow>
          if \<not> is_function symbol
          then (UNKNOWN, False, add_error (sq @ nm @ sq @ '' is not a function'') ln col a)
          else
            let expected_params = (case parameters symbol of None \<Rightarrow> 0 | Some ps \<Rightarrow> length ps)
            in (data_type symbol, True,
                if expected_params \<noteq> actual_args
                then add_error (''Function '' @ sq @ nm @ sq @ '' expects '' @ str_nat expected_params
                                  @ '' arguments, got '' @ str_nat actual_args) ln col a
                else a))"

text \<open>
  \<open>sa_visit_expression\<close> is \<^verbatim>\<open>visit_expression\<close>; \<open>sa_visit_arguments\<close> is the loop
  over the arguments that ends \<^verbatim>\<open>visit_function_call\<close>, whose results are discarded.
\<close>

fun sa_visit_expression :: "expr \<Rightarrow> SemanticAnalyzer \<Rightarrow> DataType \<times> SemanticAnalyzer"
  and sa_visit_function_call :: "int \<Rightarrow> int \<Rightarrow> string \<Rightarrow> expr list \<Rightarrow> SemanticAnalyzer \<Rightarrow> DataType \<times> SemanticAnalyzer"
  and sa_visit_arguments :: "expr list \<Rightarrow> SemanticAnalyzer \<Rightarrow> SemanticAnalyzer"
where
  "sa_visit_expression (BinaryOpNode ln col operator left right) a =
     (case sa_visit_expression left a of (left_type, a1) \<Rightarrow>
      case sa_visit_expression right a1 of (right_type, a2) \<Rightarrow>
        binary_op_type ln col operator left_type right_type a2)"
| "sa_visit_expression (UnaryOpNode ln col operator operand) a =
     (case sa_visit_expression operand a of (operand_type, a1) \<Rightarrow>
        unary_op_type ln col operator operand_type a1)"
| "sa_visit_expression (IntegerNode ln col v) a = (TREATS, a)"
| "sa_visit_expression (FloatNode ln col v) a = (WHISKERS, a)"
| "sa_visit_expression (StringNode ln col v) a = (YARN, a)"
| "sa_visit_expression (IdentifierNode ln col nm) a = sa_visit_identifier ln col nm a"
| "sa_visit_expression (FunctionCallNode ln col nm arguments) a =
     sa_visit_function_call ln col nm arguments a"
| "sa_visit_function_call ln col nm arguments a =
     (case check_callee ln col nm (length arguments) a of
        (ty, visit_args, a1) \<Rightarrow> (ty, if visit_args then sa_visit_arguments arguments a1 else a1))"
| "sa_visit_arguments [] a = a"
| "sa_visit_arguments (arg # args) a = sa_visit_arguments args (snd (sa_visit_expression arg a))"

definition sa_visit_var_declaration :: "int \<Rightarrow> int \<Rightarrow> string \<Rightarrow> expr \<Rightarrow> SemanticAnalyzer \<Rightarrow> SemanticAnalyzer" where
  "sa_visit_var_declaration ln col identifier val a =
     (case sa_visit_expression val a of (value_type, a1) \<Rightarrow>
        case declare_symbol
               \<lparr>symbol_name = identifier, data_type = value_type,
                scope_level = current_scope (symbol_table a1), is_function = False,
                parameters = None, symbol_line = ln, symbol_column = col\<rparr>
               (symbol_table a1) of
          Inl e \<Rightarrow> add_error (message e) (error_line e) (error_column e) a1
        | Inr t \<Rightarrow> a1\<lparr>symbol_table := t\<rparr>)"

definition sa_visit_assignment :: "int \<Rightarrow> int \<Rightarrow> string \<Rightarrow> expr \<Rightarrow> SemanticAnalyzer \<Rightarrow> SemanticAnalyzer" where
  "sa_visit_assignment ln col identifier val a =
     (case lookup (symbol_table a) identifier of
        None \<Rightarrow> add_error (''Undeclared variable '' @ sq @ identifier @ sq) ln col a
      | Some symbol \<Rightarrow>
          if is_function symbol
          then add_error (''Cannot assign to function '' @ sq @ identifier @ sq) ln col a
          else
            case sa_visit_expression val a of (value_type, a1) \<Rightarrow>
              if data_type symbol \<noteq> UNKNOWN \<and> value_type \<noteq> UNKNOWN
              then (if \<not> are_types_compatible (data_type symbol) value_type
                    then add_error (''Type mismatch: cannot assign '' @ DataType_name value_type
                                      @ '' to '' @ DataType_name (data_type symbol)) ln col a1
                    else a1)
              else a1)"

text \<open>
  In \<^verbatim>\<open>visit_return_statement\<close> the test \<^verbatim>\<open>if self.current_function:\<close> is false for
  \<^verbatim>\<open>None\<close> and for the empty string.
\<close>

definition sa_visit_return_statement :: "int \<Rightarrow> int \<Rightarrow> expr \<Rightarrow> SemanticAnalyzer \<Rightarrow> SemanticAnalyzer" where
  "sa_visit_return_statement ln col val a =
     (if \<not> in_function a then add_error ''Return statement outside of function'' ln col a
      else
        case sa_visit_expression val a of (return_type, a1) \<Rightarrow>
          case current_function a1 of
            None \<Rightarrow> a1
          | Some f \<Rightarrow>
              if f = [] then a1
              else
                case lookup_level (symbol_table a1) f of
                  None \<Rightarrow> a1
                | Some (lvl, symbol) \<Rightarrow>
                    if data_type symbol = UNKNOWN
                    then a1\<lparr>symbol_table := set_data_type lvl symbol return_type (symbol_table a1)\<rparr>
                    else if data_type symbol \<noteq> return_type
                    then (if \<not> are_types_compatible (data_type symbol) return_type
                          then add_error (''Inconsistent return type: expected ''
                                            @ DataType_name (data_type symbol) @ '', got ''
                                            @ DataType_name return_type) ln col a1
                          else a1)
                    else a1)"

definition sa_visit_print_statement :: "int \<Rightarrow> int \<Rightarrow> expr \<Rightarrow> SemanticAnalyzer \<Rightarrow> SemanticAnalyzer" where
  "sa_visit_print_statement ln col val a = snd (sa_visit_expression val a)"

definition sa_visit_function_call_statement ::
    "int \<Rightarrow> int \<Rightarrow> int \<Rightarrow> int \<Rightarrow> string \<Rightarrow> expr list \<Rightarrow> SemanticAnalyzer \<Rightarrow> SemanticAnalyzer" where
  "sa_visit_function_call_statement ln col call_ln call_col nm arguments a =
     snd (sa_visit_function_call call_ln call_col nm arguments a)"

text \<open>The loop of \<^verbatim>\<open>visit_function_def\<close> that declares the parameters.\<close>

fun declare_parameters :: "int \<Rightarrow> int \<Rightarrow> string list \<Rightarrow> SemanticAnalyzer \<Rightarrow> SemanticAnalyzer" where
  "declare_parameters ln col [] a = a"
| "declare_parameters ln col (param # params) a =
     declare_parameters ln col params
       (case declare_symbol
               \<lparr>symbol_name = param, data_type = UNKNOWN,
                scope_level = current_scope (symbol_table a), is_function = False,
                parameters = None, symbol_line = ln, symbol_column = col\<rparr>
               (symbol_table a) of
          Inl e \<Rightarrow> add_error (message e) (error_line e) (error_column e) a
        | Inr t \<Rightarrow> a\<lparr>symbol_table := t\<rparr>)"

text \<open>
  \<open>sa_visit_statements\<close> is the loop \<^verbatim>\<open>for stmt in ...: self.visit_statement(stmt)\<close>
  of \<^verbatim>\<open>visit_program\<close> and of every block. \<^verbatim>\<open>if node.else_block:\<close> is false for
  \<^verbatim>\<open>None\<close> and for the empty list.
\<close>

function (sequential) sa_visit_statement :: "stmt \<Rightarrow> SemanticAnalyzer \<Rightarrow> SemanticAnalyzer"
  and sa_visit_function_def :: "int \<Rightarrow> int \<Rightarrow> string \<Rightarrow> string list \<Rightarrow> stmt list \<Rightarrow> SemanticAnalyzer \<Rightarrow> SemanticAnalyzer"
  and sa_visit_if_statement :: "int \<Rightarrow> int \<Rightarrow> expr \<Rightarrow> stmt list \<Rightarrow> stmt list option \<Rightarrow> SemanticAnalyzer \<Rightarrow> SemanticAnalyzer"
  and sa_visit_while_loop :: "int \<Rightarrow> int \<Rightarrow> expr \<Rightarrow> stmt list \<Rightarrow> SemanticAnalyzer \<Rightarrow> SemanticAnalyzer"
  and sa_visit_statements :: "stmt list \<Rightarrow> SemanticAnalyzer \<Rightarrow> SemanticAnalyzer"
where
  "sa_visit_statement (VarDeclarationNode ln col identifier val) a =
     sa_visit_var_declaration ln col identifier val a"
| "sa_visit_statement (AssignmentNode ln col identifier val) a =
     sa_visit_assignment ln col identifier val a"
| "sa_visit_statement (FunctionDefNode ln col nm params body) a =
     sa_visit_function_def ln col nm params body a"
| "sa_visit_statement (IfStatementNode ln col condition then_block else_block) a =
     sa_visit_if_statement ln col condition then_block else_block a"
| "sa_visit_statement (WhileLoopNode ln col condition body) a =
     sa_visit_while_loop ln col condition body a"
| "sa_visit_statement (ReturnStatementNode ln col val) a =
     sa_visit_return_statement ln col val a"
| "sa_visit_statement (PrintStatementNode ln col val) a =
     sa_visit_print_statement ln col val a"
| "sa_visit_statement (FunctionCallStatementNode ln col call_ln call_col nm arguments) a =
     sa_visit_function_call_statement ln col call_ln call_col nm arguments a"
| "sa_visit_function_def ln col nm params body a =
     (case declare_symbol
             \<lparr>symbol_name = nm, data_type = UNKNOWN,
              scope_level = current_scope (symbol_table a), is_function = True,
              parameters = Some params, symbol_line = ln, symbol_column = col\<rparr>
             (symbol_table a) of
        Inl e \<Rightarrow> add_error (message e) (error_line e) (error_column e) a
      | Inr t \<Rightarrow>
          let a1 = a\<lparr>symbol_table := enter_scope t\<rparr>;
              old_function = current_function a1;
              old_in_function = in_function a1;
              a2 = a1\<lparr>current_function := Some nm, in_function := True\<rparr>;
              a3 = declare_parameters ln col params a2;
              a4 = sa_visit_statements body a3;
              a5 = a4\<lparr>symbol_table := exit_scope (symbol_table a4)\<rparr>
          in a5\<lparr>current_function := old_function, in_function := old_in_function\<rparr>)"
| "sa_visit_if_statement ln col condition then_block None a =
     (let a1 = snd (sa_visit_expression condition a);
          a2 = a1\<lparr>symbol_table := enter_scope (symbol_table a1)\<rparr>;
          a3 = sa_visit_statements then_block a2
      in a3\<lparr>symbol_table := exit_scope (symbol_table a3)\<rparr>)"
| "sa_visit_if_statement ln col condition then_block (Some else_block) a =
     (let a1 = snd (sa_visit_expression condition a);
          a2 = a1\<lparr>symbol_table := enter_scope (symbol_table a1)\<rparr>;
          a3 = sa_visit_statements then_block a2;
          a4 = a3\<lparr>symbol_table := exit_scope (symbol_table a3)\<rparr>
      in if else_block \<noteq> []
         then (let a5 = a4\<lparr>symbol_table := enter_scope (symbol_table a4)\<rparr>;
                   a6 = sa_visit_statements else_block a5
               in a6\<lparr>symbol_table := exit_scope (symbol_table a6)\<rparr>)
         else a4)"
| "sa_visit_while_loop ln col condition body a =
     (let a1 = snd (sa_visit_expression condition a);
          a2 = a1\<lparr>symbol_table := enter_scope (symbol_table a1)\<rparr>;
          a3 = sa_visit_statements body a2
      in a3\<lparr>symbol_table := exit_scope (symbol_table a3)\<rparr>)"
| "sa_visit_statements [] a = a"
| "sa_visit_statements (s # ss) a = sa_visit_statements ss (sa_visit_statement s a)"

  by pat_completeness auto

termination
  by (relation "measure (\<lambda>x. case x of
        Inl (Inl (s, a)) \<Rightarrow> 2 * size s
      | Inl (Inr (ln, col, nm, params, body, a)) \<Rightarrow> 2 * size_list size body + 1
      | Inr (Inl (ln, col, c, tb, eb, a)) \<Rightarrow> 2 * (size_list size tb + size_option (size_list size) eb) + 1
      | Inr (Inr (Inl (ln, col, c, body, a))) \<Rightarrow> 2 * size_list size body + 1
      | Inr (Inr (Inr (ss, a))) \<Rightarrow> 2 * size_list size ss)")
    simp_all

definition sa_visit_program :: "program \<Rightarrow> SemanticAnalyzer \<Rightarrow> SemanticAnalyzer" where
  "sa_visit_program ast a = (case ast of ProgramNode ln col statements \<Rightarrow> sa_visit_statements statements a)"

text \<open>
  \<^verbatim>\<open>analyze\<close> walks the program and then raises the first accumulated error, if any.
  The result is \<open>Inl\<close> of that error, or \<open>Inr\<close> of the analyzer after the walk.
\<close>

definition analyze :: "program \<Rightarrow> SemanticError + SemanticAnalyzer" where
  "analyze ast =
     (let a = sa_visit_program ast SemanticAnalyzer_init
      in case errors a of [] \<Rightarrow> Inr a | e # es \<Rightarrow> Inl e)"

section \<open>Code generator (codegen.py)\<close>

record TACInstruction =
  operation :: string
  arg1 :: "string option"
  arg2 :: "string option"
  result :: "string option"

record CodeGenerator =
  instructions :: "TACInstruction list"
  temp_counter :: nat
  label_counter :: nat
  cg_current_function :: "string option"

definition CodeGenerator_init :: CodeGenerator where
  "CodeGenerator_init =
     \<lparr>instructions = [], temp_counter = 0, label_counter = 0, cg_current_function = None\<rparr>"

definition new_temp :: "CodeGenerator \<Rightarrow> string \<times> CodeGenerator" where
  "new_temp g = (''t'' @ str_nat (temp_counter g), g\<lparr>temp_counter := temp_counter g + 1\<rparr>)"

definition new_label :: "CodeGenerator \<Rightarrow> string \<times> CodeGenerator" where
  "new_label g = (''L'' @ str_nat (label_counter g), g\<lparr>label_counter := label_counter g + 1\<rparr>)"

definition emit ::
    "string \<Rightarrow> string option \<Rightarrow> string option \<Rightarrow> string option \<Rightarrow> CodeGenerator \<Rightarrow> CodeGenerator" where
  "emit op a1 a2 res g =
     g\<lparr>instructions := instructions g @ [\<lparr>operation = op, arg1 = a1, arg2 = a2, result = res\<rparr>]\<rparr>"

text \<open>
  \<open>cg_visit_expression\<close> is \<^verbatim>\<open>CodeGenerator.visit_expression\<close> with \<^verbatim>\<open>visit_binary_op\<close>
  and \<^verbatim>\<open>visit_unary_op\<close> at their nodes; it returns the operand that holds the value.
  \<open>cg_visit_arguments\<close> is the loop of \<^verbatim>\<open>visit_function_call\<close> that lowers each argument
  and emits its \<^verbatim>\<open>param\<close>.
\<close>

fun cg_visit_expression :: "expr \<Rightarrow> CodeGenerator \<Rightarrow> string \<times> CodeGenerator"
  and cg_visit_function_call :: "int \<Rightarrow> int \<Rightarrow> string \<Rightarrow> expr list \<Rightarrow> CodeGenerator \<Rightarrow> string \<times> CodeGenerator"
  and cg_visit_arguments :: "expr list \<Rightarrow> CodeGenerator \<Rightarrow> CodeGenerator"
where
  "cg_visit_expression (BinaryOpNode ln col operator left right) g =
     (case cg_visit_expression left g of (left_temp, g1) \<Rightarrow>
      case cg_visit_expression right g1 of (right_temp, g2) \<Rightarrow>
      case new_temp g2 of (result_temp, g3) \<Rightarrow>
        (result_temp, emit operator (Some left_temp) (Some right_temp) (Some result_temp) g3))"
| "cg_visit_expression (UnaryOpNode ln col operator operand) g =
     (case cg_visit_expression operand g of (operand_temp, g1) \<Rightarrow>
      case new_temp g1 of (result_temp, g2) \<Rightarrow>
        (result_temp, emit operator (Some operand_temp) None (Some result_temp) g2))"
| "cg_visit_expression (IntegerNode ln col v) g = (str_int v, g)"
| "cg_visit_expression (FloatNode ln col v) g = (float_str v, g)"
| "cg_visit_expression (StringNode ln col v) g = ([CHR 0x22] @ v @ [CHR 0x22], g)"
| "cg_visit_expression (IdentifierNode ln col nm) g = (nm, g)"
| "cg_visit_expression (FunctionCallNode ln col nm arguments) g =
     cg_visit_function_call ln col nm arguments g"
| "cg_visit_function_call ln col nm arguments g =
     (case new_temp (cg_visit_arguments arguments g) of (result_temp, g1) \<Rightarrow>
        (result_temp,
         emit ''call'' (Some nm) (Some (str_nat (length arguments))) (Some result_temp) g1))"
| "cg_visit_arguments [] g = g"
| "cg_visit_arguments (arg # args) g =
     (case cg_visit_expression arg g of (arg_temp, g1) \<Rightarrow>
        cg_visit_arguments args (emit ''param'' (Some arg_temp) None None g1))"

definition cg_visit_var_declaration :: "int \<Rightarrow> int \<Rightarrow> string \<Rightarrow> expr \<Rightarrow> CodeGenerator \<Rightarrow> CodeGenerator" where
  "cg_visit_var_declaration ln col identifier val g =
     (case cg_visit_expression val g of (value_temp, g1) \<Rightarrow>
        emit ''='' (Some value_temp) None (Some identifier) g1)"

definition cg_visit_assignment :: "int \<Rightarrow> int \<Rightarrow> string \<Rightarrow> expr \<Rightarrow> CodeGenerator \<Rightarrow> CodeGenerator" where
  "cg_visit_assignment ln col identifier val g =
     (case cg_visit_expression val g of (value_temp, g1) \<Rightarrow>
        emit ''='' (Some value_temp) None (Some identifier) g1)"

definition cg_visit_return_statement :: "int \<Rightarrow> int \<Rightarrow> expr \<Rightarrow> CodeGenerator \<Rightarrow> CodeGenerator" where
  "cg_visit_return_statement ln col val g =
     (case cg_visit_expression val g of (value_temp, g1) \<Rightarrow>
        emit ''return'' (Some value_temp) None None g1)"

definition cg_visit_print_statement :: "int \<Rightarrow> int \<Rightarrow> expr \<Rightarrow> CodeGenerator \<Rightarrow> CodeGenerator" where
  "cg_visit_print_statement ln col val g =
     (case cg_visit_expression val g of (value_temp, g1) \<Rightarrow>
        emit ''print'' (Some value_temp) None None g1)"

definition cg_visit_function_call_statement ::
    "int \<Rightarrow> int \<Rightarrow> int \<Rightarrow> int \<Rightarrow> string \<Rightarrow> expr list \<Rightarrow> CodeGenerator \<Rightarrow> CodeGenerator" where
  "cg_visit_function_call_statement ln col call_ln call_col nm arguments g =
     snd (cg_visit_function_call call_ln call_col nm arguments g)"

text \<open>
  \<open>cg_visit_statements\<close> is the loop \<^verbatim>\<open>for stmt in ...: self.visit_statement(stmt)\<close>.
  In \<^verbatim>\<open>visit_if_statement\<close> the test \<^verbatim>\<open>if node.else_block:\<close> is false for \<^verbatim>\<open>None\<close> and
  for the empty list, so an empty else-block takes the branch without else.
\<close>

function (sequential) cg_visit_statement :: "stmt \<Rightarrow> CodeGenerator \<Rightarrow> CodeGenerator"
  and cg_visit_function_def :: "int \<Rightarrow> int \<Rightarrow> string \<Rightarrow> string list \<Rightarrow> stmt list \<Rightarrow> CodeGenerator \<Rightarrow> CodeGenerator"
  and cg_visit_if_statement :: "int \<Rightarrow> int \<Rightarrow> expr \<Rightarrow> stmt list \<Rightarrow> stmt list option \<Rightarrow> CodeGenerator \<Rightarrow> CodeGenerator"
  and cg_visit_while_loop :: "int \<Rightarrow> int \<Rightarrow> expr \<Rightarrow> stmt list \<Rightarrow> CodeGenerator \<Rightarrow> CodeGenerator"
  and cg_visit_statements :: "stmt list \<Rightarrow> CodeGenerator \<Rightarrow> CodeGenerator"
where
  "cg_visit_statement (VarDeclarationNode ln col identifier val) g =
     cg_visit_var_declaration ln col identifier val g"
| "cg_visit_statement (AssignmentNode ln col identifier val) g =
     cg_visit_assignment ln col identifier val g"
| "cg_visit_statement (FunctionDefNode ln col nm params body) g =
     cg_visit_function_def ln col nm params body g"
| "cg_visit_statement (IfStatementNode ln col condition then_block else_block) g =
     cg_visit_if_statement ln col condition then_block else_block g"
| "cg_visit_statement (WhileLoopNode ln col condition body) g =
     cg_visit_while_loop ln col condition body g"
| "cg_visit_statement (ReturnStatementNode ln col val) g =
     cg_visit_return_statement ln col val g"
| "cg_visit_statement (PrintStatementNode ln col val) g =
     cg_visit_print_statement ln col val g"
| "cg_visit_statement (FunctionCallStatementNode ln col call_ln call_col nm arguments) g =
     cg_visit_function_call_statement ln col call_ln call_col nm arguments g"
| "cg_visit_function_def ln col nm params body g =
     (let old_function = cg_current_function g;
          g1 = g\<lparr>cg_current_function := Some nm\<rparr>;
          g2 = emit ''begin_func'' (Some nm) None None g1;
          g3 = cg_visit_statements body g2;
          g4 = emit ''end_func'' (Some nm) None None g3
      in g4\<lparr>cg_current_function := old_function\<rparr>)"
| "cg_visit_if_statement ln col condition then_block None g =
     (case cg_visit_expression condition g of (condition_temp, g1) \<Rightarrow>
      case new_label g1 of (end_label, g2) \<Rightarrow>
        let g3 = emit ''if_false'' (Some condition_temp) None (Some end_label) g2;
            g4 = cg_visit_statements then_block g3
        in emit ''label'' None None (Some end_label) g4)"
| "cg_visit_if_statement ln col condition then_block (Some else_block) g =
     (case cg_visit_expression condition g of (condition_temp, g1) \<Rightarrow>
        if else_block \<noteq> [] then
          case new_label g1 of (else_label, g2) \<Rightarrow>
          case new_label g2 of (end_label, g3) \<Rightarrow>
            let g4 = emit ''if_false'' (Some condition_temp) None (Some else_label) g3;
                g5 = cg_visit_statements then_block g4;
                g6 = emit ''goto'' None None (Some end_label) g5;
                g7 = emit ''label'' None None (Some else_label) g6;
                g8 = cg_visit_statements else_block g7
            in emit ''label'' None None (Some end_label) g8
        else
          case new_label g1 of (end_label, g2) \<Rightarrow>
            let g3 = emit ''if_false'' (Some condition_temp) None (Some end_label) g2;
                g4 = cg_visit_statements then_block g3
            in emit ''label'' None None (Some end_label) g4)"
| "cg_visit_while_loop ln col condition body g =
     (case new_label g of (start_label, g1) \<Rightarrow>
      case new_label g1 of (end_label, g2) \<Rightarrow>
        let g3 = emit ''label'' None None (Some start_label) g2 in
        case cg_visit_expression condition g3 of (condition_temp, g4) \<Rightarrow>
          let g5 = emit ''if_false'' (Some condition_temp) None (Some end_label) g4;
              g6 = cg_visit_statements body g5;
              g7 = emit ''goto'' None None (Some start_label) g6
          in emit ''label'' None None (Some end_label) g7)"
| "cg_visit_statements [] g = g"
| "cg_visit_statements (s # ss) g = cg_visit_statements ss (cg_visit_statement s g)"
  by pat_completeness auto

termination
  by (relation "measure (\<lambda>x. case x of
        Inl (Inl (s, g)) \<Rightarrow> 2 * size s
      | Inl (Inr (ln, col, nm, params, body, g)) \<Rightarrow> 2 * size_list size body + 1
      | Inr (Inl (ln, col, c, tb, eb, g)) \<Rightarrow> 2 * (size_list size tb + size_option (size_list size) eb) + 1
      | Inr (Inr (Inl (ln, col, c, body, g))) \<Rightarrow> 2 * size_list size body + 1
      | Inr (Inr (Inr (ss, g))) \<Rightarrow> 2 * size_list size ss)")
    simp_all

definition cg_visit_program :: "program \<Rightarrow> CodeGenerator \<Rightarrow> CodeGenerator" where
  "cg_visit_program ast g = (case ast of ProgramNode ln col statements \<Rightarrow> cg_visit_statements statements g)"

definition generate :: "program \<Rightarrow> TACInstruction list" where
  "generate ast = instructions (cg_visit_program ast CodeGenerator_init)"

section \<open>Properties of the generated code\<close>

abbreviation TAC :: "string \<Rightarrow> string option \<Rightarrow> string option \<Rightarrow> string option \<Rightarrow> TACInstruction" where
  "TAC op a1 a2 res \<equiv> \<lparr>operation = op, arg1 = a1, arg2 = a2, result = res\<rparr>"

text \<open>
  \<open>grows g g'\<close>: the instruction list of \<open>g'\<close> starts with that of \<open>g\<close>. \<open>emitted g g'\<close> is
  then the code appended between the two states.
\<close>

definition emitted :: "CodeGenerator \<Rightarrow> CodeGenerator \<Rightarrow> TACInstruction list" where
  "emitted g g' = drop (length (instructions g)) (instructions g')"

definition grows :: "CodeGenerator \<Rightarrow> CodeGenerator \<Rightarrow> bool" where
  "grows g g' = (take (length (instructions g)) (instructions g') = instructions g)"

definition temp_name :: "nat \<Rightarrow> string" where
  "temp_name n = ''t'' @ str_nat n"

definition label_name :: "nat \<Rightarrow> string" where
  "label_name n = ''L'' @ str_nat n"

text \<open>
  The program of the specification's if-else example,
  \<^verbatim>\<open>Wake Purr (1) { Meow(1) } Hiss { Meow(2) } Sleep\<close>, and the same program with an empty
  else-block, \<^verbatim>\<open>Wake Purr (1) { Meow(1) } Hiss { } Sleep\<close>.
\<close>

definition if_else_example :: program where
  "if_else_example =
     ProgramNode 1 1
       [IfStatementNode 1 6 (IntegerNode 1 12 1)
          [PrintStatementNode 1 17 (IntegerNode 1 22 1)]
          (Some [PrintStatementNode 1 34 (IntegerNode 1 39 2)])]"

definition if_empty_else_example :: program where
  "if_empty_else_example =
     ProgramNode 1 1
       [IfStatementNode 1 6 (IntegerNode 1 12 1)
          [PrintStatementNode 1 17 (IntegerNode 1 22 1)]
          (Some [])]"

text \<open>
  The operators the parser puts into \<^verbatim>\<open>BinaryOpNode\<close> and \<^verbatim>\<open>UnaryOpNode\<close> (the values of
  the operator tokens of the lexer, \<^verbatim>\<open>parse_logical_or\<close> to \<^verbatim>\<open>parse_unary\<close>), and the ASTs
  all of whose operators are among them.
\<close>

definition binary_operators :: "string list" where
  "binary_operators =
     [''+'', ''-'', ''*'', ''/'', ''%'', ''=='', ''!='', ''<'', ''>'', ''<='', ''>='', ''&&'', ''||'']"

definition unary_operators :: "string list" where
  "unary_operators = [''!'', ''-'']"

fun expr_operators_ok :: "expr \<Rightarrow> bool" where
  "expr_operators_ok (BinaryOpNode ln col operator left right) =
     (operator \<in> set binary_operators \<and> expr_operators_ok left \<and> expr_operators_ok right)"
| "expr_operators_ok (UnaryOpNode ln col operator operand) =
     (operator \<in> set unary_operators \<and> expr_operators_ok operand)"
| "expr_operators_ok (IntegerNode ln col v) = True"
| "expr_operators_ok (FloatNode ln col v) = True"
| "expr_operators_ok (StringNode ln col v) = True"
| "expr_operators_ok (IdentifierNode ln col nm) = True"
| "expr_operators_ok (FunctionCallNode ln col nm arguments) = list_all expr_operators_ok arguments"

fun stmt_operators_ok :: "stmt \<Rightarrow> bool" where
  "stmt_operators_ok (VarDeclarationNode ln col identifier val) = expr_operators_ok val"
| "stmt_operators_ok (AssignmentNode ln col identifier val) = expr_operators_ok val"
| "stmt_operators_ok (FunctionDefNode ln col nm params body) = list_all stmt_operators_ok body"
| "stmt_operators_ok (IfStatementNode ln col condition then_block None) =
     (expr_operators_ok condition \<and> list_all stmt_operators_ok then_block)"
| "stmt_operators_ok (IfStatementNode ln col condition then_block (Some else_block)) =
     (expr_operators_ok condition \<and> list_all stmt_operators_ok then_block
      \<and> list_all stmt_operators_ok else_block)"
| "stmt_operators_ok (WhileLoopNode ln col condition body) =
     (expr_operators_ok condition \<and> list_all stmt_operators_ok body)"
| "stmt_operators_ok (ReturnStatementNode ln col val) = expr_operators_ok val"
| "stmt_operators_ok (PrintStatementNode ln col val) = expr_operators_ok val"
| "stmt_operators_ok (FunctionCallStatementNode ln col call_ln call_col nm arguments) =
     list_all expr_operators_ok arguments"

definition program_operators_ok :: "program \<Rightarrow> bool" where
  "program_operators_ok ast = (case ast of ProgramNode ln col statements \<Rightarrow> list_all stmt_operators_ok statements)"

text \<open>
  The \<^verbatim>\<open>label\<close> instructions of a code sequence with their destinations, and its
  \<^verbatim>\<open>goto\<close> and \<^verbatim>\<open>if_false\<close> instructions with their targets (the \<open>result\<close> field in
  both cases).
\<close>

definition label_instructions :: "TACInstruction list \<Rightarrow> TACInstruction list" where
  "label_instructions code = filter (\<lambda>i. operation i = ''label'') code"

definition jump_instructions :: "TACInstruction list \<Rightarrow> TACInstruction list" where
  "jump_instructions code = filter (\<lambda>i. operation i = ''goto'' \<or> operation i = ''if_false'') code"

definition label_destinations :: "TACInstruction list \<Rightarrow> string option list" where
  "label_destinations code = map result (label_instructions code)"

definition jump_targets :: "TACInstruction list \<Rightarrow> string option list" where
  "jump_targets code = map result (jump_instructions code)"

text \<open>
  \<open>allocates g g'\<close>: between the two states the labels numbered from the label counter of
  \<open>g\<close> up to that of \<open>g'\<close> were allocated, and each became the destination of one
  \<^verbatim>\<open>label\<close> instruction and the target of one jump.
\<close>

definition labels_between :: "nat \<Rightarrow> nat \<Rightarrow> string option multiset" where
  "labels_between a b = mset (map (\<lambda>n. Some (label_name n)) [a..<b])"

definition allocates :: "CodeGenerator \<Rightarrow> CodeGenerator \<Rightarrow> bool" where
  "allocates g g' =
     (label_counter g \<le> label_counter g'
      \<and> mset (label_destinations (instructions g')) =
          mset (label_destinations (instructions g)) + labels_between (label_counter g) (label_counter g')
      \<and> mset (jump_targets (instructions g')) =
          mset (jump_targets (instructions g)) + labels_between (label_counter g) (label_counter g'))"

definition label_state :: "CodeGenerator \<Rightarrow> nat \<times> string option list \<times> string option list" where
  "label_state g = (label_counter g, label_destinations (instructions g), jump_targets (instructions g))"

text \<open>
  A loop around an if-else:
  \<^verbatim>\<open>Wake Box i paws 0 Chase (i < 3) { Purr (i == 1) { Meow("one") } Hiss { Meow(i) } i paws i + 1 } Sleep\<close>.
\<close>

definition loop_example :: program where
  "loop_example =
     ProgramNode 1 1
       [VarDeclarationNode 2 1 ''i'' (IntegerNode 2 12 0),
        WhileLoopNode 3 1 (BinaryOpNode 3 10 ''<'' (IdentifierNode 3 8 ''i'') (IntegerNode 3 12 3))
          [IfStatementNode 4 3 (BinaryOpNode 4 11 ''=='' (IdentifierNode 4 9 ''i'') (IntegerNode 4 14 1))
             [PrintStatementNode 4 19 (StringNode 4 24 ''one'')]
             (Some [PrintStatementNode 4 40 (IdentifierNode 4 45 ''i'')]),
           AssignmentNode 5 3 ''i'' (BinaryOpNode 5 12 ''+'' (IdentifierNode 5 10 ''i'') (IntegerNode 5 14 1))]]"

text \<open>
  A name looks like a temporary when it is \<^verbatim>\<open>t\<close> followed by one or more decimal digits.
  \<open>expr_names\<close>, \<open>stmt_names\<close> and \<open>program_names\<close> collect the names of the source that
  the generator copies into operands: identifiers, names of called and defined functions,
  targets of declarations and assignments, and the text of float literals.
\<close>

definition is_digit :: "char \<Rightarrow> bool" where
  "is_digit c = (c \<in> set ''0123456789'')"

definition temp_like :: "string \<Rightarrow> bool" where
  "temp_like s = (case s of [] \<Rightarrow> False | c # ds \<Rightarrow> c = CHR ''t'' \<and> ds \<noteq> [] \<and> list_all is_digit ds)"

fun expr_names :: "expr \<Rightarrow> string list" where
  "expr_names (BinaryOpNode ln col operator left right) = expr_names left @ expr_names right"
| "expr_names (UnaryOpNode ln col operator operand) = expr_names operand"
| "expr_names (IntegerNode ln col v) = []"
| "expr_names (FloatNode ln col v) = [float_str v]"
| "expr_names (StringNode ln col v) = []"
| "expr_names (IdentifierNode ln col nm) = [nm]"
| "expr_names (FunctionCallNode ln col nm arguments) = nm # concat (map expr_names arguments)"

fun stmt_names :: "stmt \<Rightarrow> string list" where
  "stmt_names (VarDeclarationNode ln col identifier val) = identifier # expr_names val"
| "stmt_names (AssignmentNode ln col identifier val) = identifier # expr_names val"
| "stmt_names (FunctionDefNode ln col nm params body) = nm # concat (map stmt_names body)"
| "stmt_names (IfStatementNode ln col condition then_block None) =
     expr_names condition @ concat (map stmt_names then_block)"
| "stmt_names (IfStatementNode ln col condition then_block (Some else_block)) =
     expr_names condition @ concat (map stmt_names then_block) @ concat (map stmt_names else_block)"
| "stmt_names (WhileLoopNode ln col condition body) =
     expr_names condition @ concat (map stmt_names body)"
| "stmt_names (ReturnStatementNode ln col val) = expr_names val"
| "stmt_names (PrintStatementNode ln col val) = expr_names val"
| "stmt_names (FunctionCallStatementNode ln col call_ln call_col nm arguments) =
     nm # concat (map expr_names arguments)"

definition program_names :: "program \<Rightarrow> string list" where
  "program_names ast = (case ast of ProgramNode ln col statements \<Rightarrow> concat (map stmt_names statements))"

text \<open>
  The names in the argument fields of an instruction, all its names, and the positions of
  a code sequence where a name is the result, respectively an argument.
\<close>

definition args_of :: "TACInstruction \<Rightarrow> string list" where
  "args_of i = (case arg1 i of None \<Rightarrow> [] | Some a \<Rightarrow> [a]) @ (case arg2 i of None \<Rightarrow> [] | Some a \<Rightarrow> [a])"

definition names_of :: "TACInstruction \<Rightarrow> string list" where
  "names_of i = args_of i @ (case result i of None \<Rightarrow> [] | Some r \<Rightarrow> [r])"

definition defining_positions :: "string \<Rightarrow> TACInstruction list \<Rightarrow> nat list" where
  "defining_positions s code = filter (\<lambda>k. result (code ! k) = Some s) [0..<length code]"

definition using_positions :: "string \<Rightarrow> TACInstruction list \<Rightarrow> nat list" where
  "using_positions s code = filter (\<lambda>j. s \<in> set (args_of (code ! j))) [0..<length code]"

text \<open>
  \<open>check_temps n code\<close> runs through \<open>code\<close> with \<open>n\<close> temporaries defined so far: every
  argument that looks like a temporary must be one of \<open>t0\<close>, ..., \<open>t(n-1)\<close>, and every result
  that looks like a temporary must be the next one, \<open>tn\<close>. It returns the number of
  temporaries defined at the end, or \<open>None\<close> if a check fails.
\<close>

definition operand_ok :: "nat \<Rightarrow> string \<Rightarrow> bool" where
  "operand_ok n a = (temp_like a \<longrightarrow> a \<in> set (map temp_name [0..<n]))"

definition defines_temp :: "TACInstruction \<Rightarrow> bool" where
  "defines_temp i = (case result i of None \<Rightarrow> False | Some r \<Rightarrow> temp_like r)"

fun check_temps :: "nat \<Rightarrow> TACInstruction list \<Rightarrow> nat option" where
  "check_temps n [] = Some n"
| "check_temps n (i # code) =
     (if list_all (operand_ok n) (args_of i) then
        if defines_temp i then
          (if result i = Some (temp_name n) then check_temps (Suc n) code else None)
        else check_temps n code
      else None)"

definition temps_ok :: "CodeGenerator \<Rightarrow> bool" where
  "temps_ok g = (check_temps 0 (instructions g) = Some (temp_counter g))"

text \<open>
  A function, a call of it inside an expression and a unary minus:
  \<^verbatim>\<open>Wake Hunt add(x, y) { Bring x + y } Box r paws add(5, 3) * 2 Meow(-r) Sleep\<close>.
  And a program whose variable is named like the first temporary:
  \<^verbatim>\<open>Wake Box t0 paws 1 + 2 Sleep\<close>.
\<close>

definition call_example :: program where
  "call_example =
     ProgramNode 1 1
       [FunctionDefNode 1 6 ''add'' [''x'', ''y'']
          [ReturnStatementNode 1 23 (BinaryOpNode 1 31 ''+'' (IdentifierNode 1 29 ''x'') (IdentifierNode 1 33 ''y''))],
        VarDeclarationNode 1 37 ''r''
          (BinaryOpNode 1 59 ''*''
             (FunctionCallNode 1 48 ''add'' [IntegerNode 1 52 5, IntegerNode 1 55 3])
             (IntegerNode 1 61 2)),
        PrintStatementNode 1 63 (UnaryOpNode 1 68 ''-'' (IdentifierNode 1 69 ''r''))]"

definition temp_collision_example :: program where
  "temp_collision_example =
     ProgramNode 1 1
       [VarDeclarationNode 1 6 ''t0''
          (BinaryOpNode 1 20 ''+'' (IntegerNode 1 18 1) (IntegerNode 1 22 2))]"

definition scope_depth :: "SymbolTable \<Rightarrow> nat \<times> nat" where
  "scope_depth t = (length (scopes t), current_scope t)"

definition unknown_rhs_state :: SemanticAnalyzer where
  "unknown_rhs_state =
     sa_visit_statements
       [FunctionDefNode 1 1 ''f'' [] [],
        VarDeclarationNode 2 1 ''x'' (IntegerNode 2 12 1)]
       SemanticAnalyzer_init"

definition errors_in_blocks :: program where
  "errors_in_blocks =
     ProgramNode 1 1
       [IfStatementNode 2 1 (IntegerNode 2 7 1)
          [AssignmentNode 3 1 ''y'' (IntegerNode 3 8 2)]
          (Some [PrintStatementNode 5 1 (IdentifierNode 5 6 ''z'')])]"

lemma add_error_table [simp]: "symbol_table (add_error m l c a) = symbol_table a"
  by (simp add: add_error_def)

lemma sa_visit_identifier_table [simp]:
  "symbol_table (snd (sa_visit_identifier ln col nm a)) = symbol_table a"
  by (simp add: sa_visit_identifier_def split: option.splits)

lemma binary_op_type_table [simp]:
  "symbol_table (snd (binary_op_type ln col operator lt rt a)) = symbol_table a"
  unfolding binary_op_type_def by (simp only: split: if_splits) simp

lemma unary_op_type_table [simp]:
  "symbol_table (snd (unary_op_type ln col operator t a)) = symbol_table a"
  unfolding unary_op_type_def by (simp only: split: if_splits) simp

lemma check_callee_table [simp]:
  "symbol_table (snd (snd (check_callee ln col nm n a))) = symbol_table a"
  by (simp add: check_callee_def Let_def split: option.splits)

lemma sa_visit_expression_table:
  "symbol_table (snd (sa_visit_expression e a)) = symbol_table a"
  "symbol_table (snd (sa_visit_function_call ln col nm args a)) = symbol_table a"
  "symbol_table (sa_visit_arguments args a) = symbol_table a"
proof (induction e a and ln col nm args a and args a
       rule: sa_visit_expression_sa_visit_function_call_sa_visit_arguments.induct)
  case (1 ln col operator left right a)
  then show ?case by (simp split: prod.splits) (metis snd_conv binary_op_type_table)
next
  case (2 ln col operator operand a)
  then show ?case by (simp split: prod.splits) (metis snd_conv unary_op_type_table)
next
  case (8 ln col nm arguments a)
  then show ?case by (simp split: prod.splits) (metis snd_conv check_callee_table)
qed simp_all

lemma scope_depth_declare:
  "declare_symbol sy t = Inr t' \<Longrightarrow> scope_depth t' = scope_depth t"
  by (auto simp: declare_symbol_def scope_depth_def split: option.splits)

lemma scope_depth_set_data_type [simp]:
  "scope_depth (set_data_type lvl sy ty t) = scope_depth t"
  by (simp add: set_data_type_def scope_depth_def)

lemma scope_depth_exit_enter:
  "scope_depth t' = scope_depth (enter_scope t) \<Longrightarrow> scope_depth (exit_scope t') = scope_depth t"
  by (auto simp: scope_depth_def enter_scope_def exit_scope_def)

lemma depth_var_declaration:
  "scope_depth (symbol_table (sa_visit_var_declaration ln col x v a)) = scope_depth (symbol_table a)"
proof -
  obtain ty a1 where e: "sa_visit_expression v a = (ty, a1)" by (cases "sa_visit_expression v a")
  then have t: "symbol_table a1 = symbol_table a"
    using sa_visit_expression_table(1)[of v a] by simp
  show ?thesis
    unfolding sa_visit_var_declaration_def e
    by (simp add: t split: sum.splits) (metis scope_depth_declare)
qed

lemma depth_assignment:
  "scope_depth (symbol_table (sa_visit_assignment ln col x v a)) = scope_depth (symbol_table a)"
proof -
  obtain ty a1 where e: "sa_visit_expression v a = (ty, a1)" by (cases "sa_visit_expression v a")
  then have t: "symbol_table a1 = symbol_table a"
    using sa_visit_expression_table(1)[of v a] by simp
  show ?thesis
    unfolding sa_visit_assignment_def e
    by (simp add: t split: option.splits)
qed

lemma depth_return_statement:
  "scope_depth (symbol_table (sa_visit_return_statement ln col v a)) = scope_depth (symbol_table a)"
proof -
  obtain ty a1 where e: "sa_visit_expression v a = (ty, a1)" by (cases "sa_visit_expression v a")
  then have t: "symbol_table a1 = symbol_table a"
    using sa_visit_expression_table(1)[of v a] by simp
  show ?thesis
    unfolding sa_visit_return_statement_def e
    by (simp add: t split: option.splits prod.splits)
qed

lemma depth_print_statement:
  "scope_depth (symbol_table (sa_visit_print_statement ln col v a)) = scope_depth (symbol_table a)"
  by (simp add: sa_visit_print_statement_def sa_visit_expression_table)

lemma depth_function_call_statement:
  "scope_depth (symbol_table (sa_visit_function_call_statement ln col cl cc nm args a)) = scope_depth (symbol_table a)"
  unfolding sa_visit_function_call_statement_def
  by (simp only: sa_visit_expression_table)

lemma depth_declare_parameters:
  "scope_depth (symbol_table (declare_parameters ln col ps a)) = scope_depth (symbol_table a)"
  by (induction ps arbitrary: a) (auto split: sum.splits dest: scope_depth_declare)

lemma depth_statements:
  "scope_depth (symbol_table (sa_visit_statement s a)) = scope_depth (symbol_table a)"
  "scope_depth (symbol_table (sa_visit_function_def ln col nm ps body a)) = scope_depth (symbol_table a)"
  "scope_depth (symbol_table (sa_visit_if_statement ln col c tb eb a)) = scope_depth (symbol_table a)"
  "scope_depth (symbol_table (sa_visit_while_loop ln col c body a)) = scope_depth (symbol_table a)"
  "scope_depth (symbol_table (sa_visit_statements ss a)) = scope_depth (symbol_table a)"
proof (induction s a and ln col nm ps body a and ln col c tb eb a and ln col c body a and ss a
       rule: sa_visit_statement_sa_visit_function_def_sa_visit_if_statement_sa_visit_while_loop_sa_visit_statements.induct)
  case (9 ln col nm params body a)
  show ?case
  proof (cases "declare_symbol
             \<lparr>symbol_name = nm, data_type = UNKNOWN,
              scope_level = current_scope (symbol_table a), is_function = True,
              parameters = Some params, symbol_line = ln, symbol_column = col\<rparr>
             (symbol_table a)")
    case (Inl e)
    then show ?thesis by simp
  next
    case (Inr t)
    have d: "scope_depth t = scope_depth (symbol_table a)" using Inr by (rule scope_depth_declare)
    let ?a3 = "declare_parameters ln col params
          (a\<lparr>symbol_table := enter_scope t, current_function := Some nm, in_function := True\<rparr>)"
    have "scope_depth (symbol_table (sa_visit_statements body ?a3)) = scope_depth (symbol_table ?a3)"
      using "9.IH"[OF Inr refl refl refl refl refl] by (simp add: Let_def)
    also have "\<dots> = scope_depth (enter_scope t)" by (simp add: depth_declare_parameters)
    finally have "scope_depth (exit_scope (symbol_table (sa_visit_statements body ?a3))) = scope_depth t"
      by (rule scope_depth_exit_enter)
    then show ?thesis using Inr d by (simp add: Let_def)
  qed
next
  case (10 ln col condition then_block a)
  let ?a1 = "snd (sa_visit_expression condition a)"
  let ?a2 = "?a1\<lparr>symbol_table := enter_scope (symbol_table ?a1)\<rparr>"
  have "scope_depth (symbol_table (sa_visit_statements then_block ?a2)) = scope_depth (enter_scope (symbol_table ?a1))"
    using "10.IH"[OF refl refl] by simp
  then have "scope_depth (exit_scope (symbol_table (sa_visit_statements then_block ?a2))) = scope_depth (symbol_table ?a1)"
    by (rule scope_depth_exit_enter)
  then show ?case by (simp add: Let_def sa_visit_expression_table)
next
  case (11 ln col condition then_block else_block a)
  let ?a1 = "snd (sa_visit_expression condition a)"
  let ?a2 = "?a1\<lparr>symbol_table := enter_scope (symbol_table ?a1)\<rparr>"
  let ?a3 = "sa_visit_statements then_block ?a2"
  let ?a4 = "?a3\<lparr>symbol_table := exit_scope (symbol_table ?a3)\<rparr>"
  let ?a5 = "?a4\<lparr>symbol_table := enter_scope (symbol_table ?a4)\<rparr>"
  have "scope_depth (symbol_table ?a3) = scope_depth (enter_scope (symbol_table ?a1))"
    using "11.IH"(1)[OF refl refl] by simp
  then have d4: "scope_depth (symbol_table ?a4) = scope_depth (symbol_table a)"
    by (simp add: scope_depth_exit_enter sa_visit_expression_table)
  show ?case
  proof (cases "else_block = []")
    case True
    then show ?thesis using d4 by (simp add: Let_def)
  next
    case False
    have "scope_depth (symbol_table (sa_visit_statements else_block ?a5)) = scope_depth (enter_scope (symbol_table ?a4))"
      using "11.IH"(2)[OF refl refl refl refl False refl] by simp
    then have "scope_depth (exit_scope (symbol_table (sa_visit_statements else_block ?a5))) = scope_depth (symbol_table ?a4)"
      by (rule scope_depth_exit_enter)
    then show ?thesis using False d4 by (simp add: Let_def)
  qed
next
  case (12 ln col condition body a)
  let ?a1 = "snd (sa_visit_expression condition a)"
  let ?a2 = "?a1\<lparr>symbol_table := enter_scope (symbol_table ?a1)\<rparr>"
  have "scope_depth (symbol_table (sa_visit_statements body ?a2)) = scope_depth (enter_scope (symbol_table ?a1))"
    using "12.IH"[OF refl refl] by simp
  then have "scope_depth (exit_scope (symbol_table (sa_visit_statements body ?a2))) = scope_depth (symbol_table ?a1)"
    by (rule scope_depth_exit_enter)
  then show ?case by (simp add: Let_def sa_visit_expression_table)
qed (simp_all add: depth_var_declaration depth_assignment depth_return_statement
       depth_print_statement depth_function_call_statement)

lemmas sa_eval =
  sa_visit_program_def sa_visit_var_declaration_def sa_visit_assignment_def
  sa_visit_return_statement_def sa_visit_print_statement_def
  sa_visit_function_call_statement_def sa_visit_identifier_def check_callee_def
  binary_op_type_def unary_op_type_def are_types_compatible_def
  declare_symbol_def lookup_def lookup_level_def set_data_type_def
  enter_scope_def exit_scope_def add_error_def
  SemanticAnalyzer_init_def SymbolTable_init_def Let_def

lemma unknown_rhs_state_eq:
  "unknown_rhs_state =
     \<lparr>symbol_table =
        \<lparr>scopes = [[''f'' \<mapsto> \<lparr>symbol_name = ''f'', data_type = UNKNOWN, scope_level = 0,
                                is_function = True, parameters = Some [], symbol_line = 1,
                                symbol_column = 1\<rparr>,
                     ''x'' \<mapsto> \<lparr>symbol_name = ''x'', data_type = TREATS, scope_level = 0,
                                is_function = False, parameters = None, symbol_line = 2,
                                symbol_column = 1\<rparr>]],
         current_scope = 0\<rparr>,
      errors = [], current_function = None, in_function = False\<rparr>"
  by (simp add: unknown_rhs_state_def sa_eval)

section \<open>The code generator only appends\<close>

lemma grows_iff: "grows g g' \<longleftrightarrow> (\<exists>code. instructions g' = instructions g @ code)"
  unfolding grows_def by (metis append_eq_conv_conj append_take_drop_id)

lemma grows_refl [simp]: "grows g g" by (simp add: grows_def)

lemma grows_trans: "grows g g1 \<Longrightarrow> grows g1 g2 \<Longrightarrow> grows g g2"
  unfolding grows_iff by auto

lemma grows_emit [simp]: "grows g (emit op a1 a2 r g)"
  unfolding grows_iff by (simp add: emit_def)

lemma grows_new_temp [simp]: "grows g (snd (new_temp g))"
  unfolding grows_iff by (simp add: new_temp_def)

lemma grows_new_label [simp]: "grows g (snd (new_label g))"
  unfolding grows_iff by (simp add: new_label_def)

lemma grows_emitted: "grows g g' \<Longrightarrow> instructions g' = instructions g @ emitted g g'"
  unfolding grows_iff emitted_def by auto

lemma grows_expression:
  "grows g (snd (cg_visit_expression e g))"
  "grows g (snd (cg_visit_function_call ln col nm args g))"
  "grows g (cg_visit_arguments args g)"
proof (induction e g and ln col nm args g and args g
       rule: cg_visit_expression_cg_visit_function_call_cg_visit_arguments.induct)
  case (1 ln col operator left right g)
  obtain l g1 where l: "cg_visit_expression left g = (l, g1)" by (cases "cg_visit_expression left g")
  obtain r g2 where r: "cg_visit_expression right g1 = (r, g2)" by (cases "cg_visit_expression right g1")
  have a: "grows g g1" using "1.IH"(1) l by simp
  have b: "grows g1 g2" using "1.IH"(2)[OF l[symmetric]] r by simp
  have c: "grows g2 (emit operator (Some l) (Some r) (Some (fst (new_temp g2))) (snd (new_temp g2)))"
    by (rule grows_trans[OF grows_new_temp grows_emit])
  show ?case using grows_trans[OF a grows_trans[OF b c]] l r by (simp add: split_beta)
next
  case (2 ln col operator operand g)
  obtain l g1 where l: "cg_visit_expression operand g = (l, g1)" by (cases "cg_visit_expression operand g")
  have a: "grows g g1" using "2.IH" l by simp
  have c: "grows g1 (emit operator (Some l) None (Some (fst (new_temp g1))) (snd (new_temp g1)))"
    by (rule grows_trans[OF grows_new_temp grows_emit])
  show ?case using grows_trans[OF a c] l by (simp add: split_beta)
next
  case (8 ln col nm arguments g)
  let ?g1 = "cg_visit_arguments arguments g"
  have c: "grows ?g1 (emit ''call'' (Some nm) (Some (str_nat (length arguments))) (Some (fst (new_temp ?g1))) (snd (new_temp ?g1)))"
    by (rule grows_trans[OF grows_new_temp grows_emit])
  show ?case using grows_trans[OF "8.IH" c] by (simp add: split_beta)
next
  case (10 arg args g)
  obtain l g1 where l: "cg_visit_expression arg g = (l, g1)" by (cases "cg_visit_expression arg g")
  have a: "grows g g1" using "10.IH"(1) l by simp
  have b: "grows (emit ''param'' (Some l) None None g1) (cg_visit_arguments args (emit ''param'' (Some l) None None g1))"
    using "10.IH"(2)[OF l[symmetric]] by simp
  show ?case using grows_trans[OF a grows_trans[OF grows_emit b]] l by simp
qed simp_all


lemma grows_upd [simp]:
  "grows (g\<lparr>cg_current_function := f\<rparr>) g' = grows g g'"
  "grows g (g'\<lparr>cg_current_function := f\<rparr>) = grows g g'"
  "grows (g\<lparr>temp_counter := n\<rparr>) g' = grows g g'"
  "grows g (g'\<lparr>temp_counter := n\<rparr>) = grows g g'"
  "grows (g\<lparr>label_counter := n\<rparr>) g' = grows g g'"
  "grows g (g'\<lparr>label_counter := n\<rparr>) = grows g g'"
  by (simp_all add: grows_def)

lemma grows_emit_left: "grows (emit op a1 a2 r g) g' \<Longrightarrow> grows g g'"
  by (rule grows_trans[OF grows_emit])

lemma grows_emit_right: "grows g g' \<Longrightarrow> grows g (emit op a1 a2 r g')"
  by (rule grows_trans[OF _ grows_emit])

lemma grows_new_label_left: "grows (snd (new_label g)) g' \<Longrightarrow> grows g g'"
  by (simp add: new_label_def)

lemma grows_simple_statements:
  "grows g (cg_visit_var_declaration ln col x v g)"
  "grows g (cg_visit_assignment ln col x v g)"
  "grows g (cg_visit_return_statement ln col v g)"
  "grows g (cg_visit_print_statement ln col v g)"
  "grows g (cg_visit_function_call_statement ln col cl cc nm args g)"
  by (simp_all add: cg_visit_var_declaration_def cg_visit_assignment_def
        cg_visit_return_statement_def cg_visit_print_statement_def
        cg_visit_function_call_statement_def split_beta grows_expression grows_emit_right
        del: cg_visit_function_call.simps)

lemma grows_statements:
  "grows g (cg_visit_statement s g)"
  "grows g (cg_visit_function_def ln col nm ps body g)"
  "grows g (cg_visit_if_statement ln col c tb eb g)"
  "grows g (cg_visit_while_loop ln col c body g)"
  "grows g (cg_visit_statements ss g)"
proof (induction s g and ln col nm ps body g and ln col c tb eb g and ln col c body g and ss g
       rule: cg_visit_statement_cg_visit_function_def_cg_visit_if_statement_cg_visit_while_loop_cg_visit_statements.induct)
  case (9 ln col nm params body g)
  have "grows (emit ''begin_func'' (Some nm) None None (g\<lparr>cg_current_function := Some nm\<rparr>))
          (cg_visit_statements body (emit ''begin_func'' (Some nm) None None (g\<lparr>cg_current_function := Some nm\<rparr>)))"
    using "9.IH"[OF refl refl refl] .
  from grows_emit_left[OF this]
  have "grows g (cg_visit_statements body (emit ''begin_func'' (Some nm) None None (g\<lparr>cg_current_function := Some nm\<rparr>)))"
    by simp
  then show ?case by (simp add: Let_def grows_emit_right)
next
  case (10 ln col condition then_block g)
  let ?g1 = "snd (cg_visit_expression condition g)"
  let ?g3 = "emit ''if_false'' (Some (fst (cg_visit_expression condition g))) None (Some (fst (new_label ?g1))) (snd (new_label ?g1))"
  have "grows ?g3 (cg_visit_statements then_block ?g3)"
    using "10.IH"[OF prod.collapse prod.collapse refl] .
  then have "grows ?g1 (cg_visit_statements then_block ?g3)"
    by (rule grows_new_label_left[OF grows_emit_left])
  then have "grows g (cg_visit_statements then_block ?g3)"
    by (rule grows_trans[OF grows_expression(1)])
  then show ?case by (simp add: Let_def split_beta grows_emit_right)
next
  case (11 ln col condition then_block else_block g)
  let ?c = "fst (cg_visit_expression condition g)"
  let ?g1 = "snd (cg_visit_expression condition g)"
  show ?case
  proof (cases "else_block = []")
    case True
    let ?g3 = "emit ''if_false'' (Some ?c) None (Some (fst (new_label ?g1))) (snd (new_label ?g1))"
    have "grows ?g3 (cg_visit_statements then_block ?g3)"
      using "11.IH"(3)[OF prod.collapse _ prod.collapse refl] True by simp
    then have "grows ?g1 (cg_visit_statements then_block ?g3)"
      by (rule grows_new_label_left[OF grows_emit_left])
    then have "grows g (cg_visit_statements then_block ?g3)"
      by (rule grows_trans[OF grows_expression(1)])
    then show ?thesis using True by (simp add: Let_def split_beta grows_emit_right)
  next
    case False
    let ?g2 = "snd (new_label ?g1)"
    let ?g3 = "snd (new_label ?g2)"
    let ?g4 = "emit ''if_false'' (Some ?c) None (Some (fst (new_label ?g1))) ?g3"
    let ?g5 = "cg_visit_statements then_block ?g4"
    let ?g7 = "emit ''label'' None None (Some (fst (new_label ?g1))) (emit ''goto'' None None (Some (fst (new_label ?g2))) ?g5)"
    let ?g8 = "cg_visit_statements else_block ?g7"
    have a: "grows ?g4 ?g5"
      using "11.IH"(1)[OF prod.collapse False prod.collapse prod.collapse refl] .
    have b: "grows ?g7 ?g8"
      using "11.IH"(2)[OF prod.collapse False prod.collapse prod.collapse refl refl refl refl] .
    from a have x: "grows ?g1 ?g5"
      by (rule grows_new_label_left[OF grows_new_label_left[OF grows_emit_left]])
    from b have y: "grows ?g5 ?g8" by (rule grows_emit_left[OF grows_emit_left])
    have "grows g ?g8" by (rule grows_trans[OF grows_expression(1) grows_trans[OF x y]])
    then show ?thesis using False by (simp add: Let_def split_beta grows_emit_right)
  qed
next
  case (12 ln col condition body g)
  let ?g1 = "snd (new_label g)"
  let ?g2 = "snd (new_label ?g1)"
  let ?g3 = "emit ''label'' None None (Some (fst (new_label g))) ?g2"
  let ?c = "fst (cg_visit_expression condition ?g3)"
  let ?g4 = "snd (cg_visit_expression condition ?g3)"
  let ?g5 = "emit ''if_false'' (Some ?c) None (Some (fst (new_label ?g1))) ?g4"
  let ?g6 = "cg_visit_statements body ?g5"
  have a: "grows ?g5 ?g6"
    using "12.IH"[OF prod.collapse prod.collapse refl prod.collapse refl] .
  have "grows ?g3 ?g4" by (rule grows_expression(1))
  then have x: "grows g ?g4"
    by (rule grows_new_label_left[OF grows_new_label_left[OF grows_emit_left]])
  from a have y: "grows ?g4 ?g6" by (rule grows_emit_left)
  have "grows g ?g6" by (rule grows_trans[OF x y])
  then show ?case by (simp add: Let_def split_beta grows_emit_right)
next
  case (14 s ss g)
  then show ?case by (simp add: grows_trans)
qed (simp_all add: grows_simple_statements)

section \<open>Decimal names are distinct\<close>

lemma digit_char_inj: "a < 10 \<Longrightarrow> b < 10 \<Longrightarrow> digit_char a = digit_char b \<Longrightarrow> a = b"
proof -
  assume a: "a < 10" and b: "b < 10" and e: "digit_char a = digit_char b"
  have A: "a \<in> {0,1,2,3,4,5,6,7,8,9}" using a by auto
  have B: "b \<in> {0,1,2,3,4,5,6,7,8,9}" using b by auto
  show ?thesis using A B e by (auto simp: digit_char_def)
qed

lemma str_nat_nonempty: "str_nat n \<noteq> []"
  by (subst str_nat.simps) simp

lemma str_nat_inj: "str_nat a = str_nat b \<Longrightarrow> a = b"
proof (induction a arbitrary: b rule: str_nat.induct)
  case (1 n)
  show ?case
  proof (cases "n < 10")
    case True
    then have n: "str_nat n = [digit_char n]" by (subst str_nat.simps) simp
    show ?thesis
    proof (cases "b < 10")
      case True
      then have "str_nat b = [digit_char b]" by (subst str_nat.simps) simp
      with n "1.prems" \<open>n < 10\<close> True show ?thesis by (auto dest: digit_char_inj)
    next
      case False
      then have "str_nat b = str_nat (b div 10) @ [digit_char (b mod 10)]" by (subst str_nat.simps) simp
      with n "1.prems" have "str_nat (b div 10) = []" by simp
      then show ?thesis by (simp add: str_nat_nonempty)
    qed
  next
    case False
    then have n: "str_nat n = str_nat (n div 10) @ [digit_char (n mod 10)]" by (subst str_nat.simps) simp
    show ?thesis
    proof (cases "b < 10")
      case True
      then have "str_nat b = [digit_char b]" by (subst str_nat.simps) simp
      with n "1.prems" have "str_nat (n div 10) = []" by simp
      then show ?thesis by (simp add: str_nat_nonempty)
    next
      case b: False
      then have "str_nat b = str_nat (b div 10) @ [digit_char (b mod 10)]" by (subst str_nat.simps) simp
      with n "1.prems" have e1: "str_nat (n div 10) = str_nat (b div 10)"
        and e2: "digit_char (n mod 10) = digit_char (b mod 10)" by simp_all
      from "1.IH"[OF False e1] have "n div 10 = b div 10" .
      moreover from e2 have "n mod 10 = b mod 10" by (auto dest!: digit_char_inj[rotated 2])
      ultimately show ?thesis by (metis div_mult_mod_eq)
    qed
  qed
qed

lemma label_name_inj: "label_name a = label_name b \<Longrightarrow> a = b"
  by (simp add: label_name_def str_nat_inj)

section \<open>Label allocation\<close>

lemma labels_between_empty [simp]: "labels_between a a = {#}"
  by (simp add: labels_between_def)

lemma labels_between_Suc: "labels_between a (Suc a) = {#Some (label_name a)#}"
  by (simp add: labels_between_def)

lemma labels_between_split:
  "a \<le> b \<Longrightarrow> b \<le> c \<Longrightarrow> labels_between a c = labels_between a b + labels_between b c"
proof -
  assume "a \<le> b" "b \<le> c"
  then have "[a..<c] = [a..<b] @ [b..<c]" by (metis le_Suc_ex upt_add_eq_append)
  then show ?thesis by (simp add: labels_between_def)
qed

lemma label_state_emit:
  "label_state (emit op a1 a2 r g) =
     (label_counter g,
      label_destinations (instructions g) @ (if op = ''label'' then [r] else []),
      jump_targets (instructions g) @ (if op = ''goto'' \<or> op = ''if_false'' then [r] else []))"
  by (simp add: label_state_def emit_def label_destinations_def jump_targets_def
        label_instructions_def jump_instructions_def)

lemma label_state_new_temp [simp]: "label_state (snd (new_temp g)) = label_state g"
  by (simp add: label_state_def new_temp_def)

lemma binary_operators_plain:
  "op \<in> set binary_operators \<Longrightarrow> op \<noteq> ''label'' \<and> op \<noteq> ''goto'' \<and> op \<noteq> ''if_false''"
  by (auto simp: binary_operators_def)

lemma unary_operators_plain:
  "op \<in> set unary_operators \<Longrightarrow> op \<noteq> ''label'' \<and> op \<noteq> ''goto'' \<and> op \<noteq> ''if_false''"
  by (auto simp: unary_operators_def)

lemma label_state_emit_plain:
  "op \<noteq> ''label'' \<and> op \<noteq> ''goto'' \<and> op \<noteq> ''if_false'' \<Longrightarrow> label_state (emit op a1 a2 r g) = label_state g"
  by (simp add: label_state_emit) (simp add: label_state_def)

lemma label_state_expression:
  "expr_operators_ok e \<Longrightarrow> label_state (snd (cg_visit_expression e g)) = label_state g"
  "list_all expr_operators_ok args \<Longrightarrow> label_state (snd (cg_visit_function_call ln col nm args g)) = label_state g"
  "list_all expr_operators_ok args \<Longrightarrow> label_state (cg_visit_arguments args g) = label_state g"
proof (induction e g and ln col nm args g and args g
       rule: cg_visit_expression_cg_visit_function_call_cg_visit_arguments.induct)
  case (1 ln col operator left right g)
  let ?g1 = "snd (cg_visit_expression left g)"
  let ?g2 = "snd (cg_visit_expression right ?g1)"
  have a: "label_state ?g1 = label_state g" using 1 by simp
  have b: "label_state ?g2 = label_state ?g1" using "1.IH"(2)[OF prod.collapse] "1.prems" by simp
  have p: "operator \<noteq> ''label'' \<and> operator \<noteq> ''goto'' \<and> operator \<noteq> ''if_false''"
    using "1.prems" by (simp add: binary_operators_plain)
  show ?case using a b by (simp add: split_beta label_state_emit_plain[OF p])
next
  case (2 ln col operator operand g)
  have a: "label_state (snd (cg_visit_expression operand g)) = label_state g" using 2 by simp
  have p: "operator \<noteq> ''label'' \<and> operator \<noteq> ''goto'' \<and> operator \<noteq> ''if_false''"
    using "2.prems" by (simp add: unary_operators_plain)
  show ?case using a by (simp add: split_beta label_state_emit_plain[OF p])
next
  case (8 ln col nm arguments g)
  then show ?case by (simp add: split_beta label_state_emit_plain)
next
  case (10 arg args g)
  let ?g1 = "snd (cg_visit_expression arg g)"
  let ?g2 = "emit ''param'' (Some (fst (cg_visit_expression arg g))) None None ?g1"
  have a: "label_state ?g1 = label_state g" using 10 by simp
  have b: "label_state (cg_visit_arguments args ?g2) = label_state ?g2"
    using "10.IH"(2)[OF prod.collapse] "10.prems" by simp
  show ?case using a b by (simp add: split_beta label_state_emit_plain)
qed simp_all


lemma fst_new_label: "fst (new_label g) = label_name (label_counter g)"
  by (simp add: new_label_def label_name_def)

lemma snd_new_label: "snd (new_label g) = g\<lparr>label_counter := Suc (label_counter g)\<rparr>"
  by (simp add: new_label_def)

lemma label_emit [simp]:
  "label_counter (emit op a1 a2 r g) = label_counter g"
  "label_destinations (instructions (emit op a1 a2 r g)) =
     label_destinations (instructions g) @ (if op = ''label'' then [r] else [])"
  "jump_targets (instructions (emit op a1 a2 r g)) =
     jump_targets (instructions g) @ (if op = ''goto'' \<or> op = ''if_false'' then [r] else [])"
  using label_state_emit[of op a1 a2 r g] by (simp_all add: label_state_def)

lemma label_stateD:
  "label_state g' = label_state g \<Longrightarrow>
     label_counter g' = label_counter g
     \<and> label_destinations (instructions g') = label_destinations (instructions g)
     \<and> jump_targets (instructions g') = jump_targets (instructions g)"
  by (simp add: label_state_def)

lemma allocates_same: "label_state g' = label_state g \<Longrightarrow> allocates g g'"
  by (simp add: allocates_def label_state_def)

lemma allocates_trans:
  assumes a: "allocates g g1" and b: "allocates g1 g2"
  shows "allocates g g2"
proof -
  from a have l1: "label_counter g \<le> label_counter g1" by (simp add: allocates_def)
  from b have l2: "label_counter g1 \<le> label_counter g2" by (simp add: allocates_def)
  have B: "labels_between (label_counter g) (label_counter g2) =
             labels_between (label_counter g) (label_counter g1)
             + labels_between (label_counter g1) (label_counter g2)"
    using l1 l2 by (rule labels_between_split)
  show ?thesis using a b by (simp add: allocates_def B)
qed

lemma allocates_simple_statements:
  "expr_operators_ok v \<Longrightarrow> allocates g (cg_visit_var_declaration ln col x v g)"
  "expr_operators_ok v \<Longrightarrow> allocates g (cg_visit_assignment ln col x v g)"
  "expr_operators_ok v \<Longrightarrow> allocates g (cg_visit_return_statement ln col v g)"
  "expr_operators_ok v \<Longrightarrow> allocates g (cg_visit_print_statement ln col v g)"
  "list_all expr_operators_ok args \<Longrightarrow> allocates g (cg_visit_function_call_statement ln col cl cc nm args g)"
  by (simp_all add: cg_visit_var_declaration_def cg_visit_assignment_def
        cg_visit_return_statement_def cg_visit_print_statement_def
        cg_visit_function_call_statement_def split_beta allocates_same
        label_state_emit_plain label_state_expression
        del: cg_visit_function_call.simps)

lemma allocates_if_else:
  assumes s1: "label_state g1 = label_state g"
    and a: "allocates (emit ''if_false'' C None (Some (label_name (label_counter g1)))
                         (g1\<lparr>label_counter := Suc (Suc (label_counter g1))\<rparr>)) g5"
    and b: "allocates (emit ''label'' None None (Some (label_name (label_counter g1)))
                         (emit ''goto'' None None (Some (label_name (Suc (label_counter g1)))) g5)) g8"
  shows "allocates g (emit ''label'' None None (Some (label_name (Suc (label_counter g1)))) g8)"
proof -
  let ?n = "label_counter g"
  let ?m = "label_counter g5"
  let ?k = "label_counter g8"
  note s = label_stateD[OF s1]
  from a s have m: "Suc (Suc ?n) \<le> ?m" by (simp add: allocates_def)
  from b have k: "?m \<le> ?k" by (simp add: allocates_def)
  have "labels_between ?n ?k = labels_between ?n (Suc ?n) + labels_between (Suc ?n) ?k"
    using m k by (intro labels_between_split) simp_all
  also have "labels_between (Suc ?n) ?k = labels_between (Suc ?n) (Suc (Suc ?n)) + labels_between (Suc (Suc ?n)) ?k"
    using m k by (intro labels_between_split) simp_all
  also have "labels_between (Suc (Suc ?n)) ?k = labels_between (Suc (Suc ?n)) ?m + labels_between ?m ?k"
    using m k by (intro labels_between_split) simp_all
  finally have B: "labels_between ?n ?k =
      {#Some (label_name ?n)#} + ({#Some (label_name (Suc ?n))#}
        + (labels_between (Suc (Suc ?n)) ?m + labels_between ?m ?k))"
    by (simp only: labels_between_Suc)
  show ?thesis using a b s m k
    by (simp add: allocates_def B)
qed

lemma allocates_if:
  assumes s1: "label_state g1 = label_state g"
    and a: "allocates (emit ''if_false'' C None (Some (label_name (label_counter g1)))
                         (g1\<lparr>label_counter := Suc (label_counter g1)\<rparr>)) g4"
  shows "allocates g (emit ''label'' None None (Some (label_name (label_counter g1))) g4)"
proof -
  let ?n = "label_counter g"
  let ?m = "label_counter g4"
  note s = label_stateD[OF s1]
  from a s have m: "Suc ?n \<le> ?m" by (simp add: allocates_def)
  have "labels_between ?n ?m = labels_between ?n (Suc ?n) + labels_between (Suc ?n) ?m"
    using m by (intro labels_between_split) simp_all
  then have B: "labels_between ?n ?m = {#Some (label_name ?n)#} + labels_between (Suc ?n) ?m"
    by (simp only: labels_between_Suc)
  show ?thesis using a s m
    by (simp add: allocates_def B)
qed

lemma allocates_while:
  assumes s4: "label_state g4 = label_state
                 (emit ''label'' None None (Some (label_name (label_counter g)))
                    (g\<lparr>label_counter := Suc (Suc (label_counter g))\<rparr>))"
    and a: "allocates (emit ''if_false'' C None (Some (label_name (Suc (label_counter g)))) g4) g6"
  shows "allocates g (emit ''label'' None None (Some (label_name (Suc (label_counter g))))
                        (emit ''goto'' None None (Some (label_name (label_counter g))) g6))"
proof -
  let ?n = "label_counter g"
  let ?m = "label_counter g6"
  note s = label_stateD[OF s4]
  from a s have m: "Suc (Suc ?n) \<le> ?m" by (simp add: allocates_def)
  have "labels_between ?n ?m = labels_between ?n (Suc ?n) + labels_between (Suc ?n) ?m"
    using m by (intro labels_between_split) simp_all
  also have "labels_between (Suc ?n) ?m = labels_between (Suc ?n) (Suc (Suc ?n)) + labels_between (Suc (Suc ?n)) ?m"
    using m by (intro labels_between_split) simp_all
  finally have B: "labels_between ?n ?m =
      {#Some (label_name ?n)#} + ({#Some (label_name (Suc ?n))#} + labels_between (Suc (Suc ?n)) ?m)"
    by (simp only: labels_between_Suc)
  show ?thesis using a s m
    by (simp add: allocates_def B)
qed

lemma allocates_statements:
  "stmt_operators_ok s \<Longrightarrow> allocates g (cg_visit_statement s g)"
  "list_all stmt_operators_ok body \<Longrightarrow> allocates g (cg_visit_function_def ln col nm ps body g)"
  "expr_operators_ok c \<Longrightarrow> list_all stmt_operators_ok tb \<Longrightarrow>
     (case eb of None \<Rightarrow> True | Some b \<Rightarrow> list_all stmt_operators_ok b) \<Longrightarrow>
     allocates g (cg_visit_if_statement ln col c tb eb g)"
  "expr_operators_ok c \<Longrightarrow> list_all stmt_operators_ok body \<Longrightarrow>
     allocates g (cg_visit_while_loop ln col c body g)"
  "list_all stmt_operators_ok ss \<Longrightarrow> allocates g (cg_visit_statements ss g)"
proof (induction s g and ln col nm ps body g and ln col c tb eb g and ln col c body g and ss g
       rule: cg_visit_statement_cg_visit_function_def_cg_visit_if_statement_cg_visit_while_loop_cg_visit_statements.induct)
  case (4 ln col condition then_block else_block g)
  then show ?case by (cases else_block) simp_all
next
  case (9 ln col nm params body g)
  let ?g2 = "emit ''begin_func'' (Some nm) None None (g\<lparr>cg_current_function := Some nm\<rparr>)"
  have "allocates ?g2 (cg_visit_statements body ?g2)"
    using "9.IH"[OF refl refl refl] "9.prems" by simp
  then show ?case by (simp add: Let_def allocates_def)
next
  case (10 ln col condition then_block g)
  let ?C = "fst (cg_visit_expression condition g)"
  let ?g1 = "snd (cg_visit_expression condition g)"
  let ?g3 = "emit ''if_false'' (Some ?C) None (Some (fst (new_label ?g1))) (snd (new_label ?g1))"
  have s1: "label_state ?g1 = label_state g"
    using "10.prems" by (simp add: label_state_expression)
  have "allocates ?g3 (cg_visit_statements then_block ?g3)"
    using "10.IH"[OF prod.collapse prod.collapse refl] "10.prems" by simp
  then show ?case
    using allocates_if[OF s1, of "Some ?C" "cg_visit_statements then_block ?g3"]
    by (simp add: split_beta Let_def fst_new_label snd_new_label)
next
  case (11 ln col condition then_block else_block g)
  let ?C = "fst (cg_visit_expression condition g)"
  let ?g1 = "snd (cg_visit_expression condition g)"
  have s1: "label_state ?g1 = label_state g"
    using "11.prems" by (simp add: label_state_expression)
  show ?case
  proof (cases "else_block = []")
    case True
    let ?g3 = "emit ''if_false'' (Some ?C) None (Some (fst (new_label ?g1))) (snd (new_label ?g1))"
    have "allocates ?g3 (cg_visit_statements then_block ?g3)"
      using "11.IH"(3)[OF prod.collapse _ prod.collapse refl] True "11.prems" by simp
    then show ?thesis
      using allocates_if[OF s1, of "Some ?C" "cg_visit_statements then_block ?g3"] True
      by (simp add: split_beta Let_def fst_new_label snd_new_label)
  next
    case False
    let ?g2 = "snd (new_label ?g1)"
    let ?g3 = "snd (new_label ?g2)"
    let ?g4 = "emit ''if_false'' (Some ?C) None (Some (fst (new_label ?g1))) ?g3"
    let ?g5 = "cg_visit_statements then_block ?g4"
    let ?g7 = "emit ''label'' None None (Some (fst (new_label ?g1))) (emit ''goto'' None None (Some (fst (new_label ?g2))) ?g5)"
    let ?g8 = "cg_visit_statements else_block ?g7"
    have a: "allocates ?g4 ?g5"
      using "11.IH"(1)[OF prod.collapse False prod.collapse prod.collapse refl] "11.prems" by simp
    have b: "allocates ?g7 ?g8"
      using "11.IH"(2)[OF prod.collapse False prod.collapse prod.collapse refl refl refl refl] "11.prems" by simp
    show ?thesis
      using allocates_if_else[OF s1, of "Some ?C" ?g5 ?g8] a b False
      by (simp add: split_beta Let_def fst_new_label snd_new_label)
  qed
next
  case (12 ln col condition body g)
  let ?g1 = "snd (new_label g)"
  let ?g2 = "snd (new_label ?g1)"
  let ?g3 = "emit ''label'' None None (Some (fst (new_label g))) ?g2"
  let ?C = "fst (cg_visit_expression condition ?g3)"
  let ?g4 = "snd (cg_visit_expression condition ?g3)"
  let ?g5 = "emit ''if_false'' (Some ?C) None (Some (fst (new_label ?g1))) ?g4"
  let ?g6 = "cg_visit_statements body ?g5"
  have s4: "label_state ?g4 = label_state ?g3"
    using "12.prems" by (simp add: label_state_expression)
  have a: "allocates ?g5 ?g6"
    using "12.IH"[OF prod.collapse prod.collapse refl prod.collapse refl] "12.prems" by simp
  show ?case
    using allocates_while[of ?g4 g "Some ?C" ?g6] s4 a
    by (simp add: split_beta Let_def fst_new_label snd_new_label)
next
  case (13 g)
  show ?case by (simp add: allocates_same)
next
  case (14 s ss g)
  then show ?case by (simp add: allocates_trans)
qed (simp_all add: allocates_simple_statements)

lemma count_results:
  "length (filter (\<lambda>i. result i = l) xs) = count (mset (map result xs)) l"
  by (induction xs) auto

lemma distinct_labels: "distinct (map (\<lambda>k. Some (label_name k)) [a..<b])"
  by (simp add: distinct_map inj_on_def label_name_inj)

section \<open>Temporaries are defined in order\<close>

lemma is_digit_digit_char: "d < 10 \<Longrightarrow> is_digit (digit_char d)"
proof -
  assume "d < 10"
  then have "d \<in> {0,1,2,3,4,5,6,7,8,9}" by auto
  then show ?thesis by (auto simp: digit_char_def is_digit_def)
qed

lemma digits_str_nat: "list_all is_digit (str_nat n)"
proof (induction n rule: str_nat.induct)
  case (1 n)
  show ?case
  proof (cases "n < 10")
    case True
    then show ?thesis by (subst str_nat.simps) (simp add: is_digit_digit_char)
  next
    case False
    then show ?thesis using "1.IH" by (subst str_nat.simps) (simp add: is_digit_digit_char)
  qed
qed

lemma temp_like_temp_name [simp]: "temp_like (temp_name n)"
  by (simp add: temp_like_def temp_name_def str_nat_nonempty digits_str_nat)

lemma temp_name_inj: "temp_name a = temp_name b \<Longrightarrow> a = b"
  by (simp add: temp_name_def str_nat_inj)

lemma not_temp_like_label [simp]: "\<not> temp_like (label_name n)"
  by (simp add: temp_like_def label_name_def)

lemma not_temp_like_str_nat [simp]: "\<not> temp_like (str_nat n)"
proof (cases "str_nat n")
  case Nil
  then show ?thesis by (simp add: temp_like_def)
next
  case (Cons c ds)
  then have "is_digit c" using digits_str_nat[of n] by simp
  then have "c \<noteq> CHR ''t''" by (auto simp: is_digit_def)
  then show ?thesis using Cons by (simp add: temp_like_def)
qed

lemma not_temp_like_str_int [simp]: "\<not> temp_like (str_int i)"
  using not_temp_like_str_nat[of "nat i"] by (simp add: str_int_def) (simp add: temp_like_def)

lemma not_temp_like_quoted [simp]: "\<not> temp_like (CHR 0x22 # v)"
  by (simp add: temp_like_def)

lemma check_temps_append:
  "check_temps n (xs @ ys) = (case check_temps n xs of None \<Rightarrow> None | Some m \<Rightarrow> check_temps m ys)"
  by (induction xs arbitrary: n) simp_all

lemma operand_ok_mono: "operand_ok n a \<Longrightarrow> n \<le> m \<Longrightarrow> operand_ok m a"
  by (auto simp: operand_ok_def)

lemma operand_ok_plain: "\<not> temp_like a \<Longrightarrow> operand_ok n a"
  by (simp add: operand_ok_def)

lemma fst_new_temp: "fst (new_temp g) = temp_name (temp_counter g)"
  by (simp add: new_temp_def temp_name_def)

lemma snd_new_temp: "snd (new_temp g) = g\<lparr>temp_counter := Suc (temp_counter g)\<rparr>"
  by (simp add: new_temp_def)

lemma temps_ok_emit_plain:
  assumes "temps_ok g"
    and "case a1 of None \<Rightarrow> True | Some a \<Rightarrow> operand_ok (temp_counter g) a"
    and "case a2 of None \<Rightarrow> True | Some a \<Rightarrow> operand_ok (temp_counter g) a"
    and "case r of None \<Rightarrow> True | Some x \<Rightarrow> \<not> temp_like x"
  shows "temps_ok (emit op a1 a2 r g)"
  using assms
  by (auto simp: temps_ok_def emit_def check_temps_append args_of_def defines_temp_def
        split: option.splits)

lemma temps_ok_emit_temp:
  assumes "temps_ok g"
    and "case a1 of None \<Rightarrow> True | Some a \<Rightarrow> operand_ok (temp_counter g) a"
    and "case a2 of None \<Rightarrow> True | Some a \<Rightarrow> operand_ok (temp_counter g) a"
  shows "temps_ok (emit op a1 a2 (Some (fst (new_temp g))) (snd (new_temp g)))"
  using assms
  by (auto simp: temps_ok_def emit_def fst_new_temp snd_new_temp check_temps_append args_of_def
        defines_temp_def split: option.splits)

lemma temp_counter_emit [simp]: "temp_counter (emit op a1 a2 r g) = temp_counter g"
  by (simp add: emit_def)

lemma temp_counter_new_temp [simp]: "temp_counter (snd (new_temp g)) = Suc (temp_counter g)"
  by (simp add: new_temp_def)

lemma operand_ok_new_temp [simp]: "operand_ok (Suc (temp_counter g)) (fst (new_temp g))"
  by (simp add: operand_ok_def fst_new_temp)


lemma temps_ok_upd [simp]:
  "temps_ok (g\<lparr>label_counter := n\<rparr>) = temps_ok g"
  "temps_ok (g\<lparr>cg_current_function := f\<rparr>) = temps_ok g"
  by (simp_all add: temps_ok_def)

lemma temps_ok_new_label [simp]: "temps_ok (snd (new_label g)) = temps_ok g"
  by (simp add: snd_new_label)

lemma temp_counter_new_label [simp]: "temp_counter (snd (new_label g)) = temp_counter g"
  by (simp add: snd_new_label)

lemma not_temp_like_new_label [simp]: "\<not> temp_like (fst (new_label g))"
  by (simp add: fst_new_label)

lemma temps_expression:
  "temps_ok g \<Longrightarrow> \<forall>s\<in>set (expr_names e). \<not> temp_like s \<Longrightarrow>
     temps_ok (snd (cg_visit_expression e g))
     \<and> temp_counter g \<le> temp_counter (snd (cg_visit_expression e g))
     \<and> operand_ok (temp_counter (snd (cg_visit_expression e g))) (fst (cg_visit_expression e g))"
  "temps_ok g \<Longrightarrow> \<not> temp_like nm \<Longrightarrow> \<forall>s\<in>set (concat (map expr_names args)). \<not> temp_like s \<Longrightarrow>
     temps_ok (snd (cg_visit_function_call ln col nm args g))
     \<and> temp_counter g \<le> temp_counter (snd (cg_visit_function_call ln col nm args g))
     \<and> operand_ok (temp_counter (snd (cg_visit_function_call ln col nm args g)))
          (fst (cg_visit_function_call ln col nm args g))"
  "temps_ok g \<Longrightarrow> \<forall>s\<in>set (concat (map expr_names args)). \<not> temp_like s \<Longrightarrow>
     temps_ok (cg_visit_arguments args g)
     \<and> temp_counter g \<le> temp_counter (cg_visit_arguments args g)"
proof (induction e g and ln col nm args g and args g
       rule: cg_visit_expression_cg_visit_function_call_cg_visit_arguments.induct)
  case (1 ln col operator left right g)
  let ?v1 = "fst (cg_visit_expression left g)"
  let ?g1 = "snd (cg_visit_expression left g)"
  let ?v2 = "fst (cg_visit_expression right ?g1)"
  let ?g2 = "snd (cg_visit_expression right ?g1)"
  have a: "temps_ok ?g1 \<and> temp_counter g \<le> temp_counter ?g1 \<and> operand_ok (temp_counter ?g1) ?v1"
    using "1.IH"(1) "1.prems" by simp
  have b: "temps_ok ?g2 \<and> temp_counter ?g1 \<le> temp_counter ?g2 \<and> operand_ok (temp_counter ?g2) ?v2"
    using "1.IH"(2)[OF prod.collapse] a "1.prems" by simp
  have v1: "operand_ok (temp_counter ?g2) ?v1" using a b by (blast intro: operand_ok_mono)
  have "temps_ok (emit operator (Some ?v1) (Some ?v2) (Some (fst (new_temp ?g2))) (snd (new_temp ?g2)))"
    using b v1 by (intro temps_ok_emit_temp) simp_all
  then show ?case using a b by (simp add: split_beta)
next
  case (2 ln col operator operand g)
  let ?v1 = "fst (cg_visit_expression operand g)"
  let ?g1 = "snd (cg_visit_expression operand g)"
  have a: "temps_ok ?g1 \<and> temp_counter g \<le> temp_counter ?g1 \<and> operand_ok (temp_counter ?g1) ?v1"
    using "2.IH" "2.prems" by simp
  have "temps_ok (emit operator (Some ?v1) None (Some (fst (new_temp ?g1))) (snd (new_temp ?g1)))"
    using a by (intro temps_ok_emit_temp) simp_all
  then show ?case using a by (simp add: split_beta)
next
  case (3 ln col v g)
  then show ?case by (simp add: operand_ok_plain)
next
  case (4 ln col v g)
  then show ?case by (simp add: operand_ok_plain)
next
  case (5 ln col v g)
  then show ?case by (simp add: operand_ok_plain)
next
  case (6 ln col nm g)
  then show ?case by (simp add: operand_ok_plain)
next
  case (7 ln col nm arguments g)
  then show ?case by simp
next
  case (8 ln col nm arguments g)
  let ?g1 = "cg_visit_arguments arguments g"
  have a: "temps_ok ?g1 \<and> temp_counter g \<le> temp_counter ?g1"
    using "8.IH" "8.prems" by simp
  have "temps_ok (emit ''call'' (Some nm) (Some (str_nat (length arguments)))
                    (Some (fst (new_temp ?g1))) (snd (new_temp ?g1)))"
    using a "8.prems" by (intro temps_ok_emit_temp) (simp_all add: operand_ok_plain)
  then show ?case using a by (simp add: split_beta)
next
  case (9 g)
  then show ?case by simp
next
  case (10 arg args g)
  let ?v1 = "fst (cg_visit_expression arg g)"
  let ?g1 = "snd (cg_visit_expression arg g)"
  let ?g2 = "emit ''param'' (Some ?v1) None None ?g1"
  have a: "temps_ok ?g1 \<and> temp_counter g \<le> temp_counter ?g1 \<and> operand_ok (temp_counter ?g1) ?v1"
    using "10.IH"(1) "10.prems" by simp
  have t2: "temps_ok ?g2" using a by (intro temps_ok_emit_plain) simp_all
  have b: "temps_ok (cg_visit_arguments args ?g2) \<and> temp_counter ?g2 \<le> temp_counter (cg_visit_arguments args ?g2)"
    using "10.IH"(2)[OF prod.collapse t2] "10.prems" by simp
  show ?case using a b by (simp add: split_beta)
qed

lemma temps_simple_statements:
  "temps_ok g \<Longrightarrow> \<not> temp_like x \<Longrightarrow> \<forall>s\<in>set (expr_names v). \<not> temp_like s \<Longrightarrow>
     temps_ok (cg_visit_var_declaration ln col x v g)"
  "temps_ok g \<Longrightarrow> \<not> temp_like x \<Longrightarrow> \<forall>s\<in>set (expr_names v). \<not> temp_like s \<Longrightarrow>
     temps_ok (cg_visit_assignment ln col x v g)"
  "temps_ok g \<Longrightarrow> \<forall>s\<in>set (expr_names v). \<not> temp_like s \<Longrightarrow>
     temps_ok (cg_visit_return_statement ln col v g)"
  "temps_ok g \<Longrightarrow> \<forall>s\<in>set (expr_names v). \<not> temp_like s \<Longrightarrow>
     temps_ok (cg_visit_print_statement ln col v g)"
  "temps_ok g \<Longrightarrow> \<not> temp_like nm \<Longrightarrow> \<forall>s\<in>set (concat (map expr_names args)). \<not> temp_like s \<Longrightarrow>
     temps_ok (cg_visit_function_call_statement ln col cl cc nm args g)"
proof -
  show "temps_ok g \<Longrightarrow> \<not> temp_like x \<Longrightarrow> \<forall>s\<in>set (expr_names v). \<not> temp_like s \<Longrightarrow>
     temps_ok (cg_visit_var_declaration ln col x v g)"
    using temps_expression(1)[of g v]
    by (simp add: cg_visit_var_declaration_def split_beta temps_ok_emit_plain)
  show "temps_ok g \<Longrightarrow> \<not> temp_like x \<Longrightarrow> \<forall>s\<in>set (expr_names v). \<not> temp_like s \<Longrightarrow>
     temps_ok (cg_visit_assignment ln col x v g)"
    using temps_expression(1)[of g v]
    by (simp add: cg_visit_assignment_def split_beta temps_ok_emit_plain)
  show "temps_ok g \<Longrightarrow> \<forall>s\<in>set (expr_names v). \<not> temp_like s \<Longrightarrow>
     temps_ok (cg_visit_return_statement ln col v g)"
    using temps_expression(1)[of g v]
    by (simp add: cg_visit_return_statement_def split_beta temps_ok_emit_plain)
  show "temps_ok g \<Longrightarrow> \<forall>s\<in>set (expr_names v). \<not> temp_like s \<Longrightarrow>
     temps_ok (cg_visit_print_statement ln col v g)"
    using temps_expression(1)[of g v]
    by (simp add: cg_visit_print_statement_def split_beta temps_ok_emit_plain)
  show "temps_ok g \<Longrightarrow> \<not> temp_like nm \<Longrightarrow> \<forall>s\<in>set (concat (map expr_names args)). \<not> temp_like s \<Longrightarrow>
     temps_ok (cg_visit_function_call_statement ln col cl cc nm args g)"
    using temps_expression(2)[of g nm args cl cc]
    by (simp add: cg_visit_function_call_statement_def del: cg_visit_function_call.simps)
qed


lemma temps_statements:
  "temps_ok g \<Longrightarrow> \<forall>x\<in>set (stmt_names s). \<not> temp_like x \<Longrightarrow> temps_ok (cg_visit_statement s g)"
  "temps_ok g \<Longrightarrow> \<not> temp_like nm \<Longrightarrow> \<forall>x\<in>set (concat (map stmt_names body)). \<not> temp_like x \<Longrightarrow>
     temps_ok (cg_visit_function_def ln col nm ps body g)"
  "temps_ok g \<Longrightarrow> \<forall>x\<in>set (expr_names c). \<not> temp_like x \<Longrightarrow>
     \<forall>x\<in>set (concat (map stmt_names tb)). \<not> temp_like x \<Longrightarrow>
     (case eb of None \<Rightarrow> True | Some b \<Rightarrow> \<forall>x\<in>set (concat (map stmt_names b)). \<not> temp_like x) \<Longrightarrow>
     temps_ok (cg_visit_if_statement ln col c tb eb g)"
  "temps_ok g \<Longrightarrow> \<forall>x\<in>set (expr_names c). \<not> temp_like x \<Longrightarrow>
     \<forall>x\<in>set (concat (map stmt_names body)). \<not> temp_like x \<Longrightarrow>
     temps_ok (cg_visit_while_loop ln col c body g)"
  "temps_ok g \<Longrightarrow> \<forall>x\<in>set (concat (map stmt_names ss)). \<not> temp_like x \<Longrightarrow>
     temps_ok (cg_visit_statements ss g)"
proof (induction s g and ln col nm ps body g and ln col c tb eb g and ln col c body g and ss g
       rule: cg_visit_statement_cg_visit_function_def_cg_visit_if_statement_cg_visit_while_loop_cg_visit_statements.induct)
  case (1 ln col x val g)
  then show ?case by (simp add: temps_simple_statements)
next
  case (2 ln col x val g)
  then show ?case by (simp add: temps_simple_statements)
next
  case (3 ln col nm params body g)
  then show ?case by simp
next
  case (4 ln col condition then_block else_block g)
  then show ?case by (cases else_block) simp_all
next
  case (5 ln col condition body g)
  then show ?case by simp
next
  case (6 ln col val g)
  then show ?case by (simp add: temps_simple_statements)
next
  case (7 ln col val g)
  then show ?case by (simp add: temps_simple_statements)
next
  case (8 ln col call_ln call_col nm arguments g)
  then show ?case by (simp add: temps_simple_statements del: cg_visit_function_call.simps)
next
  case (9 ln col nm params body g)
  let ?g2 = "emit ''begin_func'' (Some nm) None None (g\<lparr>cg_current_function := Some nm\<rparr>)"
  have t2: "temps_ok ?g2"
    using "9.prems" by (intro temps_ok_emit_plain) (simp_all add: operand_ok_plain)
  have t3: "temps_ok (cg_visit_statements body ?g2)"
    using "9.IH"[OF refl refl refl t2] "9.prems" by simp
  have "temps_ok (emit ''end_func'' (Some nm) None None (cg_visit_statements body ?g2))"
    using t3 "9.prems" by (intro temps_ok_emit_plain) (simp_all add: operand_ok_plain)
  then show ?case by (simp add: Let_def)
next
  case (10 ln col condition then_block g)
  let ?C = "fst (cg_visit_expression condition g)"
  let ?g1 = "snd (cg_visit_expression condition g)"
  let ?g3 = "emit ''if_false'' (Some ?C) None (Some (fst (new_label ?g1))) (snd (new_label ?g1))"
  have a: "temps_ok ?g1 \<and> operand_ok (temp_counter ?g1) ?C"
    using temps_expression(1)[of g condition] "10.prems" by simp
  have t3: "temps_ok ?g3" using a by (intro temps_ok_emit_plain) simp_all
  have t4: "temps_ok (cg_visit_statements then_block ?g3)"
    using "10.IH"[OF prod.collapse prod.collapse refl t3] "10.prems" by simp
  have "temps_ok (emit ''label'' None None (Some (fst (new_label ?g1))) (cg_visit_statements then_block ?g3))"
    by (rule temps_ok_emit_plain[OF t4]) simp_all
  then show ?case by (simp add: split_beta Let_def)
next
  case (11 ln col condition then_block else_block g)
  let ?C = "fst (cg_visit_expression condition g)"
  let ?g1 = "snd (cg_visit_expression condition g)"
  have a: "temps_ok ?g1 \<and> operand_ok (temp_counter ?g1) ?C"
    using temps_expression(1)[of g condition] "11.prems" by simp
  show ?case
  proof (cases "else_block = []")
    case True
    let ?g3 = "emit ''if_false'' (Some ?C) None (Some (fst (new_label ?g1))) (snd (new_label ?g1))"
    have t3: "temps_ok ?g3" using a by (intro temps_ok_emit_plain) simp_all
    have t4: "temps_ok (cg_visit_statements then_block ?g3)"
      using "11.IH"(3)[OF prod.collapse _ prod.collapse refl t3] True "11.prems" by simp
    have "temps_ok (emit ''label'' None None (Some (fst (new_label ?g1))) (cg_visit_statements then_block ?g3))"
      by (rule temps_ok_emit_plain[OF t4]) simp_all
    then show ?thesis using True by (simp add: split_beta Let_def)
  next
    case False
    let ?g2 = "snd (new_label ?g1)"
    let ?g3 = "snd (new_label ?g2)"
    let ?g4 = "emit ''if_false'' (Some ?C) None (Some (fst (new_label ?g1))) ?g3"
    let ?g5 = "cg_visit_statements then_block ?g4"
    let ?g6 = "emit ''goto'' None None (Some (fst (new_label ?g2))) ?g5"
    let ?g7 = "emit ''label'' None None (Some (fst (new_label ?g1))) ?g6"
    let ?g8 = "cg_visit_statements else_block ?g7"
    have t4: "temps_ok ?g4" using a by (intro temps_ok_emit_plain) simp_all
    have t5: "temps_ok ?g5"
      using "11.IH"(1)[OF prod.collapse False prod.collapse prod.collapse refl t4] "11.prems" by simp
    have t6: "temps_ok ?g6" by (rule temps_ok_emit_plain[OF t5]) simp_all
    have t7: "temps_ok ?g7" by (rule temps_ok_emit_plain[OF t6]) simp_all
    have t8: "temps_ok ?g8"
      using "11.IH"(2)[OF prod.collapse False prod.collapse prod.collapse refl refl refl refl t7] "11.prems"
      by simp
    have "temps_ok (emit ''label'' None None (Some (fst (new_label ?g2))) ?g8)"
      by (rule temps_ok_emit_plain[OF t8]) simp_all
    then show ?thesis using False by (simp add: split_beta Let_def)
  qed
next
  case (12 ln col condition body g)
  let ?g1 = "snd (new_label g)"
  let ?g2 = "snd (new_label ?g1)"
  let ?g3 = "emit ''label'' None None (Some (fst (new_label g))) ?g2"
  let ?C = "fst (cg_visit_expression condition ?g3)"
  let ?g4 = "snd (cg_visit_expression condition ?g3)"
  let ?g5 = "emit ''if_false'' (Some ?C) None (Some (fst (new_label ?g1))) ?g4"
  let ?g6 = "cg_visit_statements body ?g5"
  let ?g7 = "emit ''goto'' None None (Some (fst (new_label g))) ?g6"
  have t3: "temps_ok ?g3" using "12.prems" by (intro temps_ok_emit_plain) simp_all
  have a: "temps_ok ?g4 \<and> operand_ok (temp_counter ?g4) ?C"
    using temps_expression(1)[OF t3, of condition] "12.prems" by simp
  have t5: "temps_ok ?g5" using a by (intro temps_ok_emit_plain) simp_all
  have t6: "temps_ok ?g6"
    using "12.IH"[OF prod.collapse prod.collapse refl prod.collapse refl t5] "12.prems" by simp
  have t7: "temps_ok ?g7" by (rule temps_ok_emit_plain[OF t6]) simp_all
  have "temps_ok (emit ''label'' None None (Some (fst (new_label ?g1))) ?g7)"
    by (rule temps_ok_emit_plain[OF t7]) simp_all
  then show ?case by (simp add: split_beta Let_def)
next
  case (13 g)
  then show ?case by simp
next
  case (14 s ss g)
  then show ?case by simp
qed

lemma check_temps_count:
  "check_temps a code = Some b \<Longrightarrow> b = a + length (filter defines_temp code)"
proof (induction code arbitrary: a)
  case Nil
  then show ?case by simp
next
  case (Cons i code)
  show ?case
  proof (cases "defines_temp i")
    case True
    then have "check_temps (Suc a) code = Some b" using Cons.prems by (auto split: if_splits)
    from Cons.IH[OF this] show ?thesis using True by simp
  next
    case False
    then have "check_temps a code = Some b" using Cons.prems by (auto split: if_splits)
    from Cons.IH[OF this] show ?thesis using False by simp
  qed
qed

lemma check_temps_at:
  "check_temps a code = Some b \<Longrightarrow> j < length code \<Longrightarrow>
     list_all (operand_ok (a + length (filter defines_temp (take j code)))) (args_of (code ! j))
     \<and> (defines_temp (code ! j) \<longrightarrow>
           result (code ! j) = Some (temp_name (a + length (filter defines_temp (take j code)))))"
proof (induction code arbitrary: a j)
  case Nil
  then show ?case by simp
next
  case (Cons i code)
  show ?case
  proof (cases j)
    case 0
    then show ?thesis using Cons.prems by (auto split: if_splits)
  next
    case (Suc j')
    then have j': "j' < length code" using Cons.prems by simp
    show ?thesis
    proof (cases "defines_temp i")
      case True
      then have "check_temps (Suc a) code = Some b" using Cons.prems by (auto split: if_splits)
      from Cons.IH[OF this j'] show ?thesis using Suc True by simp
    next
      case False
      then have "check_temps a code = Some b" using Cons.prems by (auto split: if_splits)
      from Cons.IH[OF this j'] show ?thesis using Suc False by simp
    qed
  qed
qed

lemma check_temps_defined:
  "check_temps a code = Some b \<Longrightarrow> a \<le> t \<Longrightarrow> t < b \<Longrightarrow>
     \<exists>k<length code. result (code ! k) = Some (temp_name t)"
proof (induction code arbitrary: a)
  case Nil
  then show ?case by simp
next
  case (Cons i code)
  show ?case
  proof (cases "defines_temp i")
    case True
    then have r: "result i = Some (temp_name a)" and c: "check_temps (Suc a) code = Some b"
      using Cons.prems by (auto split: if_splits)
    show ?thesis
    proof (cases "t = a")
      case True
      then show ?thesis using r by auto
    next
      case False
      then have "Suc a \<le> t" using Cons.prems by simp
      from Cons.IH[OF c this Cons.prems(3)] obtain k where "k < length code" "result (code ! k) = Some (temp_name t)"
        by blast
      then have "Suc k < length (i # code) \<and> result ((i # code) ! Suc k) = Some (temp_name t)" by simp
      then show ?thesis by blast
    qed
  next
    case False
    then have c: "check_temps a code = Some b" using Cons.prems by (auto split: if_splits)
    from Cons.IH[OF c Cons.prems(2,3)] obtain k where "k < length code" "result (code ! k) = Some (temp_name t)"
      by blast
    then have "Suc k < length (i # code) \<and> result ((i # code) ! Suc k) = Some (temp_name t)" by simp
    then show ?thesis by blast
  qed
qed

lemma count_take_mono:
  "j \<le> k \<Longrightarrow> length (filter P (take j xs)) \<le> length (filter P (take k xs))"
proof -
  assume "j \<le> k"
  then have "take k xs = take (j + (k - j)) xs" by simp
  also have "\<dots> = take j xs @ take (k - j) (drop j xs)" by (rule take_add)
  finally show ?thesis by simp
qed

lemma count_take_Suc:
  "k < length xs \<Longrightarrow> P (xs ! k) \<Longrightarrow>
     length (filter P (take (Suc k) xs)) = Suc (length (filter P (take k xs)))"
  by (simp add: take_Suc_conv_app_nth)

lemma filter_upt_single:
  assumes "k < n" and "P k" and "\<forall>k'<n. P k' \<longrightarrow> k' = k"
  shows "filter P [0..<n] = [k]"
proof -
  have "[0..<n] = [0..<k + (n - k)]" using assms(1) by simp
  also have "\<dots> = [0..<k] @ [k..<k + (n - k)]" by (rule upt_add_eq_append) simp
  also have "[k..<k + (n - k)] = k # [Suc k..<n]" using assms(1) by (simp add: upt_conv_Cons)
  finally have split: "[0..<n] = [0..<k] @ k # [Suc k..<n]" .
  have other: "\<not> P x" if "x < n" "x \<noteq> k" for x
    using assms(3) that by blast
  have a: "filter P [0..<k] = []"
    unfolding filter_empty_conv
  proof
    fix x assume "x \<in> set [0..<k]"
    then have "x < n" "x \<noteq> k" using assms(1) by simp_all
    then show "\<not> P x" by (rule other)
  qed
  have b: "filter P [Suc k..<n] = []"
    unfolding filter_empty_conv
  proof
    fix x assume "x \<in> set [Suc k..<n]"
    then have "x < n" "x \<noteq> k" by simp_all
    then show "\<not> P x" by (rule other)
  qed
  show ?thesis using assms(2) by (simp add: split a b)
qed

lemma check_temps_single_assignment:
  assumes c: "check_temps 0 code = Some n"
    and tl: "temp_like s"
    and occ: "s \<in> set (concat (map names_of code))"
  shows "\<exists>k. defining_positions s code = [k] \<and> (\<forall>j\<in>set (using_positions s code). k < j)"
proof -
  let ?c = "\<lambda>j. length (filter defines_temp (take j code))"
  have n: "n = ?c (length code)" using check_temps_count[OF c] by simp
  have A: "\<exists>t<?c j. a = temp_name t" if "j < length code" "a \<in> set (args_of (code ! j))" "temp_like a" for j a
  proof -
    from check_temps_at[OF c that(1)] have "list_all (operand_ok (?c j)) (args_of (code ! j))" by simp
    then have "operand_ok (?c j) a" using that(2) by (simp add: list_all_iff)
    then show ?thesis using that(3) by (auto simp: operand_ok_def)
  qed
  have R: "r = temp_name (?c j)" if "j < length code" "result (code ! j) = Some r" "temp_like r" for j r
  proof -
    have "defines_temp (code ! j)" using that by (simp add: defines_temp_def)
    with check_temps_at[OF c that(1)] that(2) show ?thesis by simp
  qed
  have D: "defines_temp (code ! j)" if "result (code ! j) = Some s" for j
    using that tl by (simp add: defines_temp_def)
  from occ obtain i where i: "i \<in> set code" "s \<in> set (names_of i)" by auto
  then obtain p where p: "p < length code" "code ! p = i" by (auto simp: in_set_conv_nth)
  have "\<exists>t<n. s = temp_name t"
  proof (cases "s \<in> set (args_of (code ! p))")
    case True
    from A[OF p(1) True tl] obtain t where "t < ?c p" "s = temp_name t" by blast
    moreover have "?c p \<le> n" unfolding n using p(1) by (intro count_take_mono) simp
    ultimately show ?thesis by (intro exI[of _ t]) simp
  next
    case False
    then have r: "result (code ! p) = Some s"
      using i(2) p(2) by (auto simp: names_of_def split: option.splits)
    have "s = temp_name (?c p)" using R[OF p(1) r tl] .
    moreover have "?c (Suc p) = Suc (?c p)" using p(1) D[OF r] by (rule count_take_Suc)
    moreover have "?c (Suc p) \<le> n" unfolding n using p(1) by (intro count_take_mono) simp
    ultimately show ?thesis by (intro exI[of _ "?c p"]) simp
  qed
  then obtain t where t: "t < n" "s = temp_name t" by blast
  from check_temps_defined[OF c _ t(1)] t(2)
  obtain k where k: "k < length code" "result (code ! k) = Some s" by auto
  have ck: "?c k = t" using R[OF k tl] t(2) by (simp add: temp_name_inj)
  have uniq: "k' = k" if "k' < length code" "result (code ! k') = Some s" for k'
  proof (rule ccontr)
    assume ne: "k' \<noteq> k"
    have ck': "?c k' = t" using R[OF that tl] t(2) by (simp add: temp_name_inj)
    show False
    proof (cases "k < k'")
      case True
      have "?c (Suc k) = Suc (?c k)" using k(1) D[OF k(2)] by (rule count_take_Suc)
      moreover have "?c (Suc k) \<le> ?c k'" using True by (intro count_take_mono) simp
      ultimately show False using ck ck' by simp
    next
      case False
      then have lt: "k' < k" using ne by simp
      have "?c (Suc k') = Suc (?c k')" using that(1) D[OF that(2)] by (rule count_take_Suc)
      moreover have "?c (Suc k') \<le> ?c k" using lt by (intro count_take_mono) simp
      ultimately show False using ck ck' by simp
    qed
  qed
  have def: "defining_positions s code = [k]"
    unfolding defining_positions_def
  proof (rule filter_upt_single)
    show "k < length code" by (rule k(1))
    show "result (code ! k) = Some s" by (rule k(2))
    show "\<forall>k'<length code. result (code ! k') = Some s \<longrightarrow> k' = k" using uniq by blast
  qed
  have use: "k < j" if "j \<in> set (using_positions s code)" for j
  proof -
    from that have j: "j < length code" "s \<in> set (args_of (code ! j))"
      by (simp_all add: using_positions_def)
    from A[OF j tl] obtain t' where t': "t' < ?c j" "s = temp_name t'" by blast
    then have "t' = t" using t(2) by (simp add: temp_name_inj)
    then have "?c k < ?c j" using t' ck by simp
    show ?thesis
    proof (rule ccontr)
      assume "\<not> k < j"
      then have "?c j \<le> ?c k" by (intro count_take_mono) simp
      with \<open>?c k < ?c j\<close> show False by simp
    qed
  qed
  show ?thesis using def use by blast
qed

section \<open>Claims about the semantic analyzer\<close>

text \<open>
  Claim C2, as amended. \<^verbatim>\<open>exit_scope\<close> is guarded by \<^verbatim>\<open>if self.current_scope > 0\<close>:
  called when the scope stack holds only the program frame (depth 1), it raises nothing and
  returns with the table unchanged.
\<close>

theorem exit_scope_program_frame:
  "table_ok t \<Longrightarrow> length (scopes t) = 1 \<Longrightarrow> exit_scope t = t"
  by (simp add: table_ok_def exit_scope_def)

text \<open>
  The amended C2 at a table whose only frame declares \<open>x\<close>.
\<close>

theorem exit_scope_program_frame_witness:
  "table_ok \<lparr>scopes = [[''x'' \<mapsto> \<lparr>symbol_name = ''x'', data_type = TREATS, scope_level = 0, is_function = False, parameters = None, symbol_line = 2, symbol_column = 1\<rparr>]], current_scope = 0\<rparr>
   \<and> length (scopes \<lparr>scopes = [[''x'' \<mapsto> \<lparr>symbol_name = ''x'', data_type = TREATS, scope_level = 0, is_function = False, parameters = None, symbol_line = 2, symbol_column = 1\<rparr>]], current_scope = 0\<rparr>) = 1
   \<and> exit_scope \<lparr>scopes = [[''x'' \<mapsto> \<lparr>symbol_name = ''x'', data_type = TREATS, scope_level = 0, is_function = False, parameters = None, symbol_line = 2, symbol_column = 1\<rparr>]], current_scope = 0\<rparr>
       = \<lparr>scopes = [[''x'' \<mapsto> \<lparr>symbol_name = ''x'', data_type = TREATS, scope_level = 0, is_function = False, parameters = None, symbol_line = 2, symbol_column = 1\<rparr>]], current_scope = 0\<rparr>"
  using exit_scope_program_frame [of "\<lparr>scopes = [[''x'' \<mapsto> \<lparr>symbol_name = ''x'', data_type = TREATS, scope_level = 0, is_function = False, parameters = None, symbol_line = 2, symbol_column = 1\<rparr>]], current_scope = 0\<rparr>"]
  by (simp add: table_ok_def)

text \<open>
  C2 as stated fails: on the initial table (depth 1) \<^verbatim>\<open>exit_scope\<close> returns normally
  and the table is unchanged.
\<close>

theorem exit_scope_program_frame_counterexample:
  "exit_scope SymbolTable_init = SymbolTable_init"
  by (simp add: exit_scope_def SymbolTable_init_def)

text \<open>
  Claim C3, as amended. For an assignment whose target is declared as a non-function of
  type \<open>T\<close> and whose right-hand side infers type \<open>V\<close>, the analyzer adds no diagnostic
  for the assignment (the errors are those of visiting the right-hand side) if and only if
  \<open>T = V\<close>, or both are numeric, or \<open>T\<close> is \<open>UNKNOWN\<close>, or \<open>V\<close> is \<open>UNKNOWN\<close>.
\<close>

theorem assignment_compatibility:
  assumes "lookup (symbol_table a) x = Some symbol"
    and "\<not> is_function symbol"
    and "sa_visit_expression val a = (V, a1)"
  shows "(errors (sa_visit_assignment ln col x val a) = errors a1) =
           (data_type symbol = V
            \<or> (data_type symbol \<in> {TREATS, WHISKERS} \<and> V \<in> {TREATS, WHISKERS})
            \<or> data_type symbol = UNKNOWN
            \<or> V = UNKNOWN)"
  using assms
  by (auto simp: sa_visit_assignment_def are_types_compatible_def add_error_def)

text \<open>
  The amended C3 at \<^verbatim>\<open>x paws "s"\<close> with \<open>x\<close> of type \<open>TREATS\<close>: the assignment is
  rejected.
\<close>

theorem assignment_compatibility_witness:
  "(errors (sa_visit_assignment 3 1 ''x'' (StringNode 3 8 ''s'') unknown_rhs_state)
      = errors unknown_rhs_state) = False"
  using assignment_compatibility [of unknown_rhs_state "''x''"
      "\<lparr>symbol_name = ''x'', data_type = TREATS, scope_level = 0,
        is_function = False, parameters = None, symbol_line = 2, symbol_column = 1\<rparr>"
      "StringNode 3 8 ''s''" YARN unknown_rhs_state 3 1]
  by (simp add: unknown_rhs_state_eq lookup_def lookup_level_def)

text \<open>
  C3 as stated fails. After \<^verbatim>\<open>Hunt f() { }\<close> and \<^verbatim>\<open>Box x paws 1\<close>, the target \<open>x\<close>
  is a non-function of type \<open>TREATS\<close>, the call \<^verbatim>\<open>f()\<close> infers \<open>UNKNOWN\<close>, and
  \<^verbatim>\<open>x paws f()\<close> is accepted without any diagnostic.
\<close>

theorem assignment_compatibility_counterexample:
  "map_option data_type (lookup (symbol_table unknown_rhs_state) ''x'') = Some TREATS
   \<and> map_option is_function (lookup (symbol_table unknown_rhs_state) ''x'') = Some False
   \<and> fst (sa_visit_expression (FunctionCallNode 3 8 ''f'' []) unknown_rhs_state) = UNKNOWN
   \<and> errors (sa_visit_assignment 3 1 ''x'' (FunctionCallNode 3 8 ''f'' []) unknown_rhs_state) = []"
  by (simp add: unknown_rhs_state_eq sa_eval)

text \<open>
  Claim C4, as amended. For a binary expression with operator \<^verbatim>\<open>/\<close>, after both operands
  are visited: when both operand types are numeric (\<open>TREATS\<close> or \<open>WHISKERS\<close>) the inferred
  type is \<open>WHISKERS\<close> (Float) and no diagnostic is added; otherwise the inferred type is
  \<open>UNKNOWN\<close>, with one type-error diagnostic at the operator's coordinates when neither
  operand type is \<open>UNKNOWN\<close> and no diagnostic when one of them is.
\<close>

theorem division_type:
  assumes "sa_visit_expression left a = (left_type, a1)"
    and "sa_visit_expression right a1 = (right_type, a2)"
  shows "sa_visit_expression (BinaryOpNode ln col ''/'' left right) a =
           (if left_type \<in> {TREATS, WHISKERS} \<and> right_type \<in> {TREATS, WHISKERS}
            then (WHISKERS, a2)
            else if left_type \<noteq> UNKNOWN \<and> right_type \<noteq> UNKNOWN
            then (UNKNOWN,
                  a2\<lparr>errors := errors a2 @
                     [\<lparr>message = ''Type error: cannot apply operator '' @ sq @ ''/'' @ sq @ '' to ''
                                   @ DataType_name left_type @ '' and '' @ DataType_name right_type,
                       error_line = ln, error_column = col\<rparr>]\<rparr>)
            else (UNKNOWN, a2))"
  using assms by (simp add: binary_op_type_def add_error_def)

text \<open>
  The amended C4 at \<^verbatim>\<open>7 / 2\<close>, two integers that divide to a Float without diagnostic, and
  at \<^verbatim>\<open>"s" / 1.5\<close>, which infers \<open>UNKNOWN\<close> and records the type error.
\<close>

theorem division_type_witness:
  "sa_visit_expression
      (BinaryOpNode 1 3 ''/'' (IntegerNode 1 1 7) (IntegerNode 1 5 2))
      SemanticAnalyzer_init = (WHISKERS, SemanticAnalyzer_init)
   \<and> sa_visit_expression
      (BinaryOpNode 2 5 ''/'' (StringNode 2 1 ''s'') (FloatNode 2 7 (PyFloat ''1.5'')))
      SemanticAnalyzer_init
     = (UNKNOWN,
        SemanticAnalyzer_init
          \<lparr>errors := [\<lparr>message = ''Type error: cannot apply operator '' @ sq @ ''/'' @ sq
                                    @ '' to YARN and WHISKERS'',
                        error_line = 2, error_column = 5\<rparr>]\<rparr>)"
  using division_type [of "IntegerNode 1 1 7" SemanticAnalyzer_init TREATS SemanticAnalyzer_init
                          "IntegerNode 1 5 2" TREATS SemanticAnalyzer_init 1 3]
        division_type [of "StringNode 2 1 ''s''" SemanticAnalyzer_init YARN SemanticAnalyzer_init
                          "FloatNode 2 7 (PyFloat ''1.5'')" WHISKERS SemanticAnalyzer_init 2 5]
  by (simp add: SemanticAnalyzer_init_def)

text \<open>
  C4 as stated fails: \<^verbatim>\<open>"a" / 2\<close> infers \<open>UNKNOWN\<close>, not Float, and the analyzer records
  the type error.
\<close>

theorem division_type_counterexample:
  "fst (sa_visit_expression
          (BinaryOpNode 1 5 ''/'' (StringNode 1 1 ''a'') (IntegerNode 1 7 2))
          SemanticAnalyzer_init) = UNKNOWN
   \<and> errors (snd (sa_visit_expression
          (BinaryOpNode 1 5 ''/'' (StringNode 1 1 ''a'') (IntegerNode 1 7 2))
          SemanticAnalyzer_init))
       = [\<lparr>message = ''Type error: cannot apply operator '' @ sq @ ''/'' @ sq
                       @ '' to YARN and TREATS'',
           error_line = 1, error_column = 5\<rparr>]"
  by (simp add: binary_op_type_def add_error_def SemanticAnalyzer_init_def)

text \<open>
  Claim C8. After the analysis walk of any program, with or without diagnostics, the scope
  stack has depth 1 and \<open>current_scope\<close> is 0, as initially. (Every statement visit leaves
  the depth as it found it, lemma \<open>depth_statements\<close>: each \<^verbatim>\<open>enter_scope\<close> is followed by
  its \<^verbatim>\<open>exit_scope\<close>, and no visit raises.)
\<close>

theorem scope_balance:
  "length (scopes (symbol_table (sa_visit_program ast SemanticAnalyzer_init))) = 1
   \<and> current_scope (symbol_table (sa_visit_program ast SemanticAnalyzer_init)) = 0"
proof -
  obtain ln col ss where ast: "ast = ProgramNode ln col ss" by (cases ast)
  have "scope_depth (symbol_table (sa_visit_statements ss SemanticAnalyzer_init))
          = scope_depth (symbol_table SemanticAnalyzer_init)"
    by (rule depth_statements(5))
  then show ?thesis
    by (simp add: ast sa_visit_program_def scope_depth_def SemanticAnalyzer_init_def SymbolTable_init_def)
qed

text \<open>
  C8 at a program whose then-block and else-block each record an error.
\<close>

theorem scope_balance_witness:
  "length (scopes (symbol_table (sa_visit_program errors_in_blocks SemanticAnalyzer_init))) = 1
   \<and> current_scope (symbol_table (sa_visit_program errors_in_blocks SemanticAnalyzer_init)) = 0
   \<and> length (errors (sa_visit_program errors_in_blocks SemanticAnalyzer_init)) = 2"
  using scope_balance [of errors_in_blocks]
  by (simp add: errors_in_blocks_def sa_eval)

text \<open>
  Claim C9. An assignment whose target is undeclared, or declared as a function, records
  exactly one diagnostic at the statement's coordinates and returns: the result does not
  depend on the right-hand side, which is not visited.
\<close>

theorem assignment_bad_target:
  assumes "lookup (symbol_table a) x = None
           \<or> (\<exists>symbol. lookup (symbol_table a) x = Some symbol \<and> is_function symbol)"
  shows "sa_visit_assignment ln col x val a =
           add_error (if lookup (symbol_table a) x = None
                      then ''Undeclared variable '' @ sq @ x @ sq
                      else ''Cannot assign to function '' @ sq @ x @ sq) ln col a"
  using assms by (auto simp: sa_visit_assignment_def)

text \<open>
  C9 at \<^verbatim>\<open>f paws undef + "s"\<close> with \<open>f\<close> a function: one diagnostic, none for
  \<open>undef\<close>.
\<close>

theorem assignment_bad_target_witness:
  "errors (sa_visit_assignment 3 1 ''f''
             (BinaryOpNode 3 14 ''+'' (IdentifierNode 3 8 ''undef'') (StringNode 3 16 ''s''))
             unknown_rhs_state)
     = [\<lparr>message = ''Cannot assign to function '' @ sq @ ''f'' @ sq,
         error_line = 3, error_column = 1\<rparr>]"
  using assignment_bad_target [of unknown_rhs_state "''f''" 3 1
      "BinaryOpNode 3 14 ''+'' (IdentifierNode 3 8 ''undef'') (StringNode 3 16 ''s'')"]
  by (simp add: unknown_rhs_state_eq lookup_def lookup_level_def add_error_def)

text \<open>
  Claim C10. A function definition whose name is already declared in the current scope
  records the redeclaration diagnostic and returns: the symbol table is unchanged (no scope
  entered, no parameter declared) and the body is not analyzed.
\<close>

theorem function_redeclaration:
  assumes "(scopes (symbol_table a) ! current_scope (symbol_table a)) nm = Some existing"
  shows "sa_visit_function_def ln col nm params body a =
           add_error (''Variable '' @ sq @ nm @ sq
                        @ '' already declared in current scope at line ''
                        @ str_int (symbol_line existing)) ln col a"
  using assms by (simp add: declare_symbol_def)

text \<open>
  C10 at \<^verbatim>\<open>Hunt x(p) { Meow(undef) }\<close> with \<open>x\<close> already declared at line 2: only the
  redeclaration is reported.
\<close>

theorem function_redeclaration_witness:
  "sa_visit_function_def 3 1 ''x'' [''p'']
      [PrintStatementNode 4 1 (IdentifierNode 4 6 ''undef'')] unknown_rhs_state
     = unknown_rhs_state
         \<lparr>errors := [\<lparr>message = ''Variable '' @ sq @ ''x'' @ sq
                          @ '' already declared in current scope at line 2'',
                       error_line = 3, error_column = 1\<rparr>]\<rparr>"
  using function_redeclaration [of unknown_rhs_state "''x''"
      "\<lparr>symbol_name = ''x'', data_type = TREATS, scope_level = 0,
        is_function = False, parameters = None, symbol_line = 2, symbol_column = 1\<rparr>"
      3 1 "[''p'']" "[PrintStatementNode 4 1 (IdentifierNode 4 6 ''undef'')]"]
  by (simp add: unknown_rhs_state_eq add_error_def str_int_def str_nat.simps digit_char_def)

section \<open>Claims about the code generator\<close>

lemmas cg_eval = generate_def cg_visit_program_def CodeGenerator_init_def
  cg_visit_var_declaration_def cg_visit_assignment_def cg_visit_return_statement_def
  cg_visit_print_statement_def cg_visit_function_call_statement_def
  new_temp_def new_label_def emit_def str_int_def str_nat.simps digit_char_def

text \<open>
  Claim C7, as amended. \<^verbatim>\<open>visit_if_statement\<close> on an If statement with an else-block first
  lowers the condition to the operand \<open>C\<close>, leaving the generator in state \<open>g1\<close>. If the
  else-block is not empty it then allocates \<open>L_else\<close> and \<open>L_end\<close> in that order and the
  instruction list becomes: the instructions so far, the code of the condition,
  \<^verbatim>\<open>if_false C goto L_else\<close>, the lowered then-block, \<^verbatim>\<open>goto L_end\<close>, \<^verbatim>\<open>label L_else\<close>, the
  lowered else-block, \<^verbatim>\<open>label L_end\<close>. If the else-block is empty
  (\<^verbatim>\<open>Hiss { }\<close>), the test \<^verbatim>\<open>if node.else_block:\<close> fails and the statement is lowered as an
  If without else: one label \<open>L_only\<close> is allocated and the code is the condition's,
  \<^verbatim>\<open>if_false C goto L_only\<close>, the lowered then-block, \<^verbatim>\<open>label L_only\<close>.
\<close>

theorem if_else_lowering:
  "let C = fst (cg_visit_expression condition g);
       g1 = snd (cg_visit_expression condition g);
       L_else = ''L'' @ str_nat (label_counter g1);
       L_end = ''L'' @ str_nat (label_counter g1 + 1);
       g4 = emit ''if_false'' (Some C) None (Some L_else) (g1\<lparr>label_counter := label_counter g1 + 2\<rparr>);
       g5 = cg_visit_statements then_block g4;
       g7 = emit ''label'' None None (Some L_else) (emit ''goto'' None None (Some L_end) g5);
       g8 = cg_visit_statements else_block g7;
       L_only = ''L'' @ str_nat (label_counter g1);
       h3 = emit ''if_false'' (Some C) None (Some L_only) (g1\<lparr>label_counter := label_counter g1 + 1\<rparr>);
       h4 = cg_visit_statements then_block h3
   in instructions (cg_visit_if_statement ln col condition then_block (Some else_block) g) =
        (if else_block \<noteq> [] then
           instructions g @ emitted g g1
             @ [TAC ''if_false'' (Some C) None (Some L_else)]
             @ emitted g4 g5
             @ [TAC ''goto'' None None (Some L_end), TAC ''label'' None None (Some L_else)]
             @ emitted g7 g8
             @ [TAC ''label'' None None (Some L_end)]
         else
           instructions g @ emitted g g1
             @ [TAC ''if_false'' (Some C) None (Some L_only)]
             @ emitted h3 h4
             @ [TAC ''label'' None None (Some L_only)])"
proof -
  let ?C = "fst (cg_visit_expression condition g)"
  let ?g1 = "snd (cg_visit_expression condition g)"
  let ?L_else = "''L'' @ str_nat (label_counter ?g1)"
  let ?L_end = "''L'' @ str_nat (label_counter ?g1 + 1)"
  let ?g4 = "emit ''if_false'' (Some ?C) None (Some ?L_else) (?g1\<lparr>label_counter := label_counter ?g1 + 2\<rparr>)"
  let ?g5 = "cg_visit_statements then_block ?g4"
  let ?g7 = "emit ''label'' None None (Some ?L_else) (emit ''goto'' None None (Some ?L_end) ?g5)"
  let ?g8 = "cg_visit_statements else_block ?g7"
  let ?h3 = "emit ''if_false'' (Some ?C) None (Some ?L_else) (?g1\<lparr>label_counter := label_counter ?g1 + 1\<rparr>)"
  let ?h4 = "cg_visit_statements then_block ?h3"
  have e1: "instructions ?g1 = instructions g @ emitted g ?g1"
    by (rule grows_emitted[OF grows_expression(1)])
  have e5: "instructions ?g5 = instructions ?g4 @ emitted ?g4 ?g5"
    by (rule grows_emitted[OF grows_statements(5)])
  have e8: "instructions ?g8 = instructions ?g7 @ emitted ?g7 ?g8"
    by (rule grows_emitted[OF grows_statements(5)])
  have eh: "instructions ?h4 = instructions ?h3 @ emitted ?h3 ?h4"
    by (rule grows_emitted[OF grows_statements(5)])
  have i4: "instructions ?g4 = instructions ?g1 @ [TAC ''if_false'' (Some ?C) None (Some ?L_else)]"
    by (simp add: emit_def)
  have i3: "instructions ?h3 = instructions ?g1 @ [TAC ''if_false'' (Some ?C) None (Some ?L_else)]"
    by (simp add: emit_def)
  have i7: "instructions ?g7 = instructions ?g5
              @ [TAC ''goto'' None None (Some ?L_end), TAC ''label'' None None (Some ?L_else)]"
    by (simp add: emit_def)
  show ?thesis
  proof (cases "else_block = []")
    case True
    have "instructions (cg_visit_if_statement ln col condition then_block (Some else_block) g)
            = instructions ?h4 @ [TAC ''label'' None None (Some ?L_else)]"
      using True by (simp add: split_beta Let_def new_label_def emit_def)
    also have "\<dots> = instructions g @ emitted g ?g1
             @ [TAC ''if_false'' (Some ?C) None (Some ?L_else)]
             @ emitted ?h3 ?h4
             @ [TAC ''label'' None None (Some ?L_else)]"
      by (simp only: eh i3 e1 append_assoc)
    finally show ?thesis using True by (simp only: Let_def simp_thms if_False)
  next
    case False
    have "instructions (cg_visit_if_statement ln col condition then_block (Some else_block) g)
            = instructions ?g8 @ [TAC ''label'' None None (Some ?L_end)]"
      using False by (simp add: split_beta Let_def new_label_def emit_def)
    also have "\<dots> = instructions g @ emitted g ?g1
             @ [TAC ''if_false'' (Some ?C) None (Some ?L_else)]
             @ emitted ?g4 ?g5
             @ [TAC ''goto'' None None (Some ?L_end), TAC ''label'' None None (Some ?L_else)]
             @ emitted ?g7 ?g8
             @ [TAC ''label'' None None (Some ?L_end)]"
      by (simp only: e8 i7 e5 i4 e1 append_assoc)
    finally show ?thesis using False by (simp only: Let_def simp_thms if_True)
  qed
qed

text \<open>
  The amended C7 at the specification's example
  \<^verbatim>\<open>Wake Purr (1) { Meow(1) } Hiss { Meow(2) } Sleep\<close>: the generated code is
  \<^verbatim>\<open>if_false 1 goto L0; print 1; goto L1; L0:; print 2; L1:\<close>.
\<close>

theorem if_else_lowering_witness:
  "generate if_else_example =
     [TAC ''if_false'' (Some ''1'') None (Some ''L0''),
      TAC ''print'' (Some ''1'') None None,
      TAC ''goto'' None None (Some ''L1''),
      TAC ''label'' None None (Some ''L0''),
      TAC ''print'' (Some ''2'') None None,
      TAC ''label'' None None (Some ''L1'')]"
  using if_else_lowering [of "IntegerNode 1 12 1" CodeGenerator_init
      "[PrintStatementNode 1 17 (IntegerNode 1 22 1)]"
      "[PrintStatementNode 1 34 (IntegerNode 1 39 2)]" 1 6]
  by (simp add: if_else_example_def cg_eval)

text \<open>
  C7 as stated fails for an else-block that is present but empty:
  \<^verbatim>\<open>Wake Purr (1) { Meow(1) } Hiss { } Sleep\<close> has an else-block, and its code has neither
  \<^verbatim>\<open>goto L_end\<close> nor a second label.
\<close>

theorem if_else_lowering_counterexample:
  "generate if_empty_else_example =
     [TAC ''if_false'' (Some ''1'') None (Some ''L0''),
      TAC ''print'' (Some ''1'') None None,
      TAC ''label'' None None (Some ''L0'')]"
  by (simp add: if_empty_else_example_def cg_eval)

text \<open>
  Claim C6. For every AST whose operators are those of the language (in particular every
  parsed program, accepted by semantic analysis or not), in the generated code the number of
  \<^verbatim>\<open>label\<close> instructions equals the number of distinct targets of \<^verbatim>\<open>goto\<close> and
  \<^verbatim>\<open>if_false\<close> instructions, and every name that is a label destination or a jump target is
  the destination of exactly one \<^verbatim>\<open>label\<close> instruction.
\<close>

theorem label_consistency:
  assumes "program_operators_ok ast"
  shows "length (label_instructions (generate ast)) = card (set (jump_targets (generate ast)))
         \<and> (\<forall>l \<in> set (label_destinations (generate ast)) \<union> set (jump_targets (generate ast)).
               length (filter (\<lambda>i. result i = l) (label_instructions (generate ast))) = 1)"
proof -
  obtain ln col ss where ast: "ast = ProgramNode ln col ss" by (cases ast)
  let ?g = "cg_visit_statements ss CodeGenerator_init"
  let ?n = "label_counter ?g"
  let ?names = "map (\<lambda>k. Some (label_name k)) [0..<?n]"
  have gen: "generate ast = instructions ?g"
    by (simp add: ast generate_def cg_visit_program_def)
  have "allocates CodeGenerator_init ?g"
    using assms by (intro allocates_statements(5)) (simp add: ast program_operators_ok_def)
  then have D: "mset (label_destinations (generate ast)) = mset ?names"
    and J: "mset (jump_targets (generate ast)) = mset ?names"
    by (simp_all add: gen allocates_def CodeGenerator_init_def labels_between_def
          label_destinations_def jump_targets_def label_instructions_def jump_instructions_def)
  have "length (label_instructions (generate ast)) = size (mset (label_destinations (generate ast)))"
    by (simp add: label_destinations_def)
  also have "\<dots> = ?n" by (simp only: D) simp
  finally have len: "length (label_instructions (generate ast)) = ?n" .
  have sJ: "set (jump_targets (generate ast)) = set ?names"
    using J by (rule mset_eq_setD)
  have sD: "set (label_destinations (generate ast)) = set ?names"
    using D by (rule mset_eq_setD)
  have "card (set ?names) = length ?names"
    by (rule distinct_card[OF distinct_labels])
  then have card: "card (set (jump_targets (generate ast))) = ?n" by (simp only: sJ) simp
  have once: "length (filter (\<lambda>i. result i = l) (label_instructions (generate ast))) = 1"
    if "l \<in> set ?names" for l
  proof -
    have "length (filter (\<lambda>i. result i = l) (label_instructions (generate ast)))
            = count (mset (label_destinations (generate ast))) l"
      by (simp only: count_results label_destinations_def)
    also have "\<dots> = count (mset ?names) l" by (simp only: D)
    also have "\<dots> = 1"
    proof -
      have "\<forall>a. count (mset ?names) a = (if a \<in> set ?names then 1 else 0)"
        using distinct_labels[of 0 ?n] unfolding distinct_count_atmost_1 .
      then show ?thesis using that by simp
    qed
    finally show ?thesis .
  qed
  show ?thesis using len card once sD sJ by simp
qed

text \<open>
  C6 at a loop around an if-else, a program that semantic analysis accepts: four labels,
  each defined once and each the target of one jump.
\<close>

theorem label_consistency_witness:
  "program_operators_ok loop_example
   \<and> errors (sa_visit_program loop_example SemanticAnalyzer_init) = []
   \<and> label_destinations (generate loop_example) = [Some ''L0'', Some ''L2'', Some ''L3'', Some ''L1'']
   \<and> jump_targets (generate loop_example) = [Some ''L1'', Some ''L2'', Some ''L3'', Some ''L0'']
   \<and> length (label_instructions (generate loop_example)) = 4
   \<and> card (set (jump_targets (generate loop_example))) = 4"
proof -
  have ok: "program_operators_ok loop_example"
    by (simp add: program_operators_ok_def loop_example_def binary_operators_def)
  have sem: "errors (sa_visit_program loop_example SemanticAnalyzer_init) = []"
    by code_simp
  have code: "generate loop_example =
    [TAC ''='' (Some ''0'') None (Some ''i''),
     TAC ''label'' None None (Some ''L0''),
     TAC ''<'' (Some ''i'') (Some ''3'') (Some ''t0''),
     TAC ''if_false'' (Some ''t0'') None (Some ''L1''),
     TAC ''=='' (Some ''i'') (Some ''1'') (Some ''t1''),
     TAC ''if_false'' (Some ''t1'') None (Some ''L2''),
     TAC ''print'' (Some ([CHR 0x22] @ ''one'' @ [CHR 0x22])) None None,
     TAC ''goto'' None None (Some ''L3''),
     TAC ''label'' None None (Some ''L2''),
     TAC ''print'' (Some ''i'') None None,
     TAC ''label'' None None (Some ''L3''),
     TAC ''+'' (Some ''i'') (Some ''1'') (Some ''t2''),
     TAC ''='' (Some ''t2'') None (Some ''i''),
     TAC ''goto'' None None (Some ''L0''),
     TAC ''label'' None None (Some ''L1'')]"
    by (simp add: loop_example_def cg_eval)
  have d: "label_destinations (generate loop_example) = [Some ''L0'', Some ''L2'', Some ''L3'', Some ''L1'']"
    by (simp add: code label_destinations_def label_instructions_def)
  have j: "jump_targets (generate loop_example) = [Some ''L1'', Some ''L2'', Some ''L3'', Some ''L0'']"
    by (simp add: code jump_targets_def jump_instructions_def)
  have l: "length (label_instructions (generate loop_example)) = 4"
    by (simp add: code label_instructions_def)
  show ?thesis using label_consistency[OF ok] ok sem d j l by simp
qed

end
